theory Spec2Isabelle
  imports Main "HOL-Library.AList"
begin

section \<open>The object model that object.js runs on\<close>

text \<open>
  object.js adds \<^verbatim>\<open>mixin\<close> and \<^verbatim>\<open>extend\<close> to \<^verbatim>\<open>Object.prototype\<close> and, where the
  host lacks it, \<^verbatim>\<open>Function.prototype.bind\<close>. Its behaviour is the behaviour of the
  host's objects, so the embedding starts with them, as ECMAScript 5 defines them:
  an object has a prototype link, an ordered list of own data properties, each with the
  attributes \<^verbatim>\<open>writable\<close>, \<^verbatim>\<open>enumerable\<close> and \<^verbatim>\<open>configurable\<close> that the
  descriptors of the source set, and, when it is a function, the code it runs.
  The store is a list of objects; a reference is an index into it.

  Outside the model: accessor properties (getters and setters), objects made
  non-extensible, the text of error messages (and the conversion of a value to a string
  that builds it), the methods of \<^verbatim>\<open>String.prototype\<close>, \<^verbatim>\<open>Number.prototype\<close> and
  \<^verbatim>\<open>Boolean.prototype\<close>, a user-defined \<^verbatim>\<open>toString\<close> of an object used as a property
  name, an object that is not a function and carries an \<^verbatim>\<open>apply\<close> of its own, and
  numbers that are not integers. ES5 leaves the order of enumeration to the host; here
  it is the order of the property list.
  The source has no strict-mode directive: an assignment that the host rejects is
  dropped without an error.
\<close>

type_synonym ref = nat

datatype val = VUndef | VNull | VBool bool | VNum int | VStr string | VRef ref

text \<open>
  The code of a function object. \<open>UserCode i\<close> is a function written by the user of the
  library (a method of a mixin, an \<^verbatim>\<open>init\<close>); the other constructors are the functions and
  closures of object.js itself and the one builtin it calls as a method,
  \<^verbatim>\<open>Object.prototype.hasOwnProperty\<close>. A closure carries the variables it captured:
  \<^verbatim>\<open>bind\<close> captures \<^verbatim>\<open>Empty\<close>; \<^verbatim>\<open>bound\<close> captures \<^verbatim>\<open>target\<close>, \<^verbatim>\<open>that\<close> and
  \<^verbatim>\<open>args\<close>.
\<close>

datatype code =
    UserCode nat
  | HasOwnPropertyCode
  | EmptyCode
  | BindCode ref
  | BoundCode ref val "val list"
  | MixinCode
  | ExtendCode
  | ClassCode
  | SuperCode

record property =
  pvalue :: val
  writable :: bool
  enumerable :: bool
  configurable :: bool

record obj =
  proto :: "ref option"
  props :: "(string \<times> property) list"
  code :: "code option"

type_synonym heap = "obj list"

text \<open>
  A call returns a value and the new store, or throws. \<open>OutOfFuel\<close> is the call stack
  running out: \<open>host_call\<close> below counts the depth of nested calls.
\<close>

datatype js_error = TypeError | Thrown val | OutOfFuel

type_synonym outcome = "js_error + (val \<times> heap)"

text \<open>The objects every store holds: references 0, 1 and 2.\<close>

definition object_prototype :: ref where
  "object_prototype = 0"

definition function_prototype :: ref where
  "function_prototype = 1"

definition global_object :: ref where
  "global_object = 2"

subsection \<open>Values\<close>

fun truthy :: "val \<Rightarrow> bool" where
  "truthy VUndef = False"
| "truthy VNull = False"
| "truthy (VBool b) = b"
| "truthy (VNum n) = (n \<noteq> 0)"
| "truthy (VStr s) = (s \<noteq> [])"
| "truthy (VRef r) = True"

fun is_object :: "val \<Rightarrow> bool" where
  "is_object (VRef r) = True"
| "is_object v = False"

fun digits :: "nat \<Rightarrow> string" where
  "digits n = (if n < 10 then [char_of (48 + n)] else digits (n div 10) @ [char_of (48 + n mod 10)])"

definition string_of_int :: "int \<Rightarrow> string" where
  "string_of_int i = (if i < 0 then CHR ''-'' # digits (nat (- i)) else digits (nat i))"

text \<open>
  The conversion of a value to a property name. An object is converted as the builtin
  \<^verbatim>\<open>Object.prototype.toString\<close> converts a plain object.
\<close>

fun to_key :: "val \<Rightarrow> string" where
  "to_key VUndef = ''undefined''"
| "to_key VNull = ''null''"
| "to_key (VBool b) = (if b then ''true'' else ''false'')"
| "to_key (VNum n) = string_of_int n"
| "to_key (VStr s) = s"
| "to_key (VRef r) = ''[object Object]''"

text \<open>\<^verbatim>\<open>arguments[i]\<close>, undefined beyond the arguments passed.\<close>

definition arg :: "nat \<Rightarrow> val list \<Rightarrow> val" where
  "arg i args = (if i < length args then args ! i else VUndef)"

subsection \<open>Own properties and the prototype chain\<close>

definition data_prop :: "val \<Rightarrow> bool \<Rightarrow> bool \<Rightarrow> bool \<Rightarrow> property" where
  "data_prop v w e c = \<lparr>pvalue = v, writable = w, enumerable = e, configurable = c\<rparr>"

definition own_props :: "heap \<Rightarrow> ref \<Rightarrow> (string \<times> property) list" where
  "own_props h r = (if r < length h then props (h ! r) else [])"

definition own_prop :: "heap \<Rightarrow> ref \<Rightarrow> string \<Rightarrow> property option" where
  "own_prop h r k = map_of (own_props h r) k"

definition proto_of :: "heap \<Rightarrow> ref \<Rightarrow> ref option" where
  "proto_of h r = (if r < length h then proto (h ! r) else None)"

definition code_of :: "heap \<Rightarrow> ref \<Rightarrow> code option" where
  "code_of h r = (if r < length h then code (h ! r) else None)"

text \<open>
  \<^verbatim>\<open>[[GetProperty]]\<close>: the own property, else the prototype's. The host keeps
  prototype chains acyclic; here an object is allocated after its prototype, so a link
  goes to a smaller reference (\<open>wf_heap\<close>), and the walk stops at a link that does not.
\<close>

fun get_prop :: "heap \<Rightarrow> ref \<Rightarrow> string \<Rightarrow> property option" where
  "get_prop h r k =
     (case own_prop h r k of
        Some p \<Rightarrow> Some p
      | None \<Rightarrow>
          (case proto_of h r of
             None \<Rightarrow> None
           | Some q \<Rightarrow> if q < r then get_prop h q k else None))"

declare get_prop.simps [simp del]


definition prop_value :: "property option \<Rightarrow> val" where
  "prop_value po = (case po of None \<Rightarrow> VUndef | Some p \<Rightarrow> pvalue p)"

text \<open>
  \<^verbatim>\<open>ToObject\<close> of a primitive, as far as its own properties go: a string has its
  characters and its length.
\<close>

definition string_props :: "string \<Rightarrow> (string \<times> property) list" where
  "string_props s =
     map (\<lambda>i. (digits i, data_prop (VStr [s ! i]) False True False)) [0..<length s]
     @ [(''length'', data_prop (VNum (int (length s))) False False False)]"

fun wrapper :: "val \<Rightarrow> obj" where
  "wrapper (VStr s) = \<lparr>proto = Some object_prototype, props = string_props s, code = None\<rparr>"
| "wrapper v = \<lparr>proto = Some object_prototype, props = [], code = None\<rparr>"

text \<open>\<^verbatim>\<open>v[k]\<close>, the host's \<^verbatim>\<open>[[Get]]\<close>: a TypeError on undefined and null.\<close>

fun js_get :: "heap \<Rightarrow> val \<Rightarrow> string \<Rightarrow> js_error + val" where
  "js_get h VUndef k = Inl TypeError"
| "js_get h VNull k = Inl TypeError"
| "js_get h (VRef r) k = Inr (prop_value (get_prop h r k))"
| "js_get h v k =
     (case map_of (props (wrapper v)) k of
        Some p \<Rightarrow> Inr (pvalue p)
      | None \<Rightarrow> Inr (prop_value (get_prop h object_prototype k)))"

subsection \<open>Writing properties\<close>

definition set_own :: "heap \<Rightarrow> ref \<Rightarrow> string \<Rightarrow> property \<Rightarrow> heap" where
  "set_own h r k p =
     (if r < length h then h[r := (h ! r)\<lparr>props := AList.update k p (props (h ! r))\<rparr>] else h)"

text \<open>
  \<^verbatim>\<open>[[CanPut]]\<close> (ES5 8.12.4) for data properties: an own property decides by its
  \<^verbatim>\<open>writable\<close>; otherwise an inherited property that is not writable forbids the
  assignment.
\<close>

definition inherited_prop :: "heap \<Rightarrow> ref \<Rightarrow> string \<Rightarrow> property option" where
  "inherited_prop h r k =
     (case proto_of h r of
        None \<Rightarrow> None
      | Some q \<Rightarrow> if q < r then get_prop h q k else None)"

definition can_put :: "heap \<Rightarrow> ref \<Rightarrow> string \<Rightarrow> bool" where
  "can_put h r k =
     (case own_prop h r k of
        Some p \<Rightarrow> writable p
      | None \<Rightarrow> (case inherited_prop h r k of None \<Rightarrow> True | Some p \<Rightarrow> writable p))"

text \<open>
  \<^verbatim>\<open>o[k] = v\<close>, the host's \<^verbatim>\<open>[[Put]]\<close> (ES5 8.12.5) outside strict mode: a rejected
  assignment leaves the store as it is; a new property is writable, enumerable and
  configurable.
\<close>

definition put :: "heap \<Rightarrow> ref \<Rightarrow> string \<Rightarrow> val \<Rightarrow> heap" where
  "put h r k v =
     (if \<not> can_put h r k then h
      else (case own_prop h r k of
              Some p \<Rightarrow> set_own h r k (p\<lparr>pvalue := v\<rparr>)
            | None \<Rightarrow> set_own h r k (data_prop v True True True)))"

text \<open>
  A property descriptor as \<^verbatim>\<open>Object.defineProperty\<close> receives it: each field is
  present or absent.
\<close>

record descriptor =
  d_value :: "val option"
  d_writable :: "bool option"
  d_enumerable :: "bool option"
  d_configurable :: "bool option"

definition or_default :: "'a option \<Rightarrow> 'a \<Rightarrow> 'a" where
  "or_default x d = (case x of None \<Rightarrow> d | Some y \<Rightarrow> y)"

text \<open>
  \<^verbatim>\<open>Object.defineProperty(o, k, desc)\<close> for a data descriptor (ES5 8.12.9): a new
  property takes \<^verbatim>\<open>false\<close> and \<^verbatim>\<open>undefined\<close> for the absent fields; an existing
  property that is not configurable accepts no change of its attributes and, when it is
  not writable either, no change of its value; a rejected definition is a TypeError.
\<close>

definition rejects :: "property \<Rightarrow> descriptor \<Rightarrow> bool" where
  "rejects p d =
     (\<not> configurable p \<and>
        (d_configurable d = Some True
         \<or> (case d_enumerable d of None \<Rightarrow> False | Some e \<Rightarrow> e \<noteq> enumerable p)
         \<or> (\<not> writable p \<and>
              (d_writable d = Some True
               \<or> (case d_value d of None \<Rightarrow> False | Some v \<Rightarrow> v \<noteq> pvalue p)))))"

definition define_property :: "heap \<Rightarrow> ref \<Rightarrow> string \<Rightarrow> descriptor \<Rightarrow> js_error + heap" where
  "define_property h r k d =
     (case own_prop h r k of
        None \<Rightarrow>
          Inr (set_own h r k
                 (data_prop (or_default (d_value d) VUndef) (or_default (d_writable d) False)
                    (or_default (d_enumerable d) False) (or_default (d_configurable d) False)))
      | Some p \<Rightarrow>
          if rejects p d then Inl TypeError
          else Inr (set_own h r k
                      (data_prop (or_default (d_value d) (pvalue p))
                         (or_default (d_writable d) (writable p))
                         (or_default (d_enumerable d) (enumerable p))
                         (or_default (d_configurable d) (configurable p)))))"

subsection \<open>Allocation\<close>

definition alloc :: "heap \<Rightarrow> obj \<Rightarrow> ref \<times> heap" where
  "alloc h ob = (length h, h @ [ob])"

text \<open>An object literal \<^verbatim>\<open>{}\<close>.\<close>

definition plain_object :: obj where
  "plain_object = \<lparr>proto = Some object_prototype, props = [], code = None\<rparr>"

text \<open>
  A function expression or declaration: the function object, whose prototype link is
  \<^verbatim>\<open>Function.prototype\<close>, and the object in its \<^verbatim>\<open>prototype\<close> property, whose
  \<^verbatim>\<open>constructor\<close> is the function.
\<close>

definition new_function :: "heap \<Rightarrow> code \<Rightarrow> ref \<times> heap" where
  "new_function h c =
     (let f = length h;
          p = Suc f
      in (f, h @ [\<lparr>proto = Some function_prototype,
                    props = [(''prototype'', data_prop (VRef p) True False False)],
                    code = Some c\<rparr>,
                  \<lparr>proto = Some object_prototype,
                    props = [(''constructor'', data_prop (VRef f) True False True)],
                    code = None\<rparr>]))"

text \<open>
  \<^verbatim>\<open>Object.create(v)\<close> with one argument: a new object whose prototype is \<open>v\<close>, an
  object or null.
\<close>

fun object_create :: "heap \<Rightarrow> val \<Rightarrow> js_error + (ref \<times> heap)" where
  "object_create h (VRef p) = Inr (alloc h \<lparr>proto = Some p, props = [], code = None\<rparr>)"
| "object_create h VNull = Inr (alloc h \<lparr>proto = None, props = [], code = None\<rparr>)"
| "object_create h v = Inl TypeError"

text \<open>
  The receiver of a function that is not in strict mode: undefined and null become the
  global object, another primitive is wrapped.
\<close>

fun this_object :: "heap \<Rightarrow> val \<Rightarrow> ref \<times> heap" where
  "this_object h (VRef r) = (r, h)"
| "this_object h VUndef = (global_object, h)"
| "this_object h VNull = (global_object, h)"
| "this_object h v = alloc h (wrapper v)"

text \<open>
  \<^verbatim>\<open>Object.keys(o)\<close>: the names of the own enumerable properties, in the order of the
  property list. ES5 raises a TypeError when \<open>o\<close> is not an object.
\<close>

definition own_enumerable :: "heap \<Rightarrow> ref \<Rightarrow> string list" where
  "own_enumerable h r = map fst (filter (\<lambda>kp. enumerable (snd kp)) (own_props h r))"

fun object_keys :: "heap \<Rightarrow> val \<Rightarrow> js_error + string list" where
  "object_keys h (VRef r) = Inr (own_enumerable h r)"
| "object_keys h v = Inl TypeError"

text \<open>
  The names a \<^verbatim>\<open>for (i in o)\<close> loop visits: the enumerable properties of \<open>o\<close> and of
  its prototypes, nearest first; a property of a prototype that a nearer object shadows
  is not visited. Nothing is visited on undefined and null.
\<close>

fun for_in_names :: "heap \<Rightarrow> ref \<Rightarrow> string list" where
  "for_in_names h r =
     own_enumerable h r
     @ filter (\<lambda>k. own_prop h r k = None)
         (case proto_of h r of
            None \<Rightarrow> []
          | Some q \<Rightarrow> if q < r then for_in_names h q else [])"

declare for_in_names.simps [simp del]

fun for_in_keys :: "heap \<Rightarrow> val \<Rightarrow> string list" where
  "for_in_keys h VUndef = []"
| "for_in_keys h VNull = []"
| "for_in_keys h (VRef r) = for_in_names h r"
| "for_in_keys h v =
     map fst (filter (\<lambda>kp. enumerable (snd kp)) (props (wrapper v)))
     @ filter (\<lambda>k. map_of (props (wrapper v)) k = None) (for_in_names h object_prototype)"

text \<open>\<^verbatim>\<open>v instanceof f\<close> (ES5 15.3.5.3).\<close>

fun in_chain :: "heap \<Rightarrow> ref \<Rightarrow> ref \<Rightarrow> bool" where
  "in_chain h r p =
     (case proto_of h r of
        None \<Rightarrow> False
      | Some q \<Rightarrow> if q = p then True else if q < r then in_chain h q p else False)"

declare in_chain.simps [simp del]

definition instance_of :: "heap \<Rightarrow> val \<Rightarrow> ref \<Rightarrow> js_error + bool" where
  "instance_of h v f =
     (case v of
        VRef r \<Rightarrow>
          (case prop_value (get_prop h f ''prototype'') of
             VRef p \<Rightarrow> Inr (in_chain h r p)
           | _ \<Rightarrow> Inl TypeError)
      | _ \<Rightarrow> Inr False)"

text \<open>
  The builtin \<^verbatim>\<open>Object.prototype.hasOwnProperty\<close>, which \<^verbatim>\<open>mixin\<close> calls as a method
  of its argument.
\<close>

fun has_own_property :: "heap \<Rightarrow> val \<Rightarrow> string \<Rightarrow> js_error + bool" where
  "has_own_property h VUndef k = Inl TypeError"
| "has_own_property h VNull k = Inl TypeError"
| "has_own_property h (VRef r) k = Inr (own_prop h r k \<noteq> None)"
| "has_own_property h v k = Inr (map_of (props (wrapper v)) k \<noteq> None)"

section \<open>The functions of object.js\<close>

text \<open>
  Each function of the source is a function of the store. A function that calls another
  function object takes the host's call operation as its first argument, \<open>invoke\<close>;
  \<open>host_call\<close> below supplies it. The builtins the source names directly
  (\<^verbatim>\<open>Object.keys\<close>, \<^verbatim>\<open>Object.create\<close>, \<^verbatim>\<open>Object.defineProperty\<close>,
  \<^verbatim>\<open>Array.prototype.slice\<close>, \<^verbatim>\<open>concat\<close>, \<^verbatim>\<open>forEach\<close>, \<^verbatim>\<open>Function.prototype.apply\<close>)
  are the host's own; an argument list is a list of values.
\<close>

type_synonym invoke = "ref \<Rightarrow> val \<Rightarrow> val list \<Rightarrow> heap \<Rightarrow> outcome"

type_synonym user = "invoke \<Rightarrow> nat \<Rightarrow> val \<Rightarrow> val list \<Rightarrow> heap \<Rightarrow> outcome"

text \<open>\<^verbatim>\<open>f.apply(this, args)\<close>: a TypeError when \<open>f\<close> is not a function object.\<close>

fun call_val :: "invoke \<Rightarrow> val \<Rightarrow> val \<Rightarrow> val list \<Rightarrow> heap \<Rightarrow> outcome" where
  "call_val invoke (VRef f) this args h = invoke f this args h"
| "call_val invoke v this args h = Inl TypeError"

subsection \<open>mixin (lines 48 to 66)\<close>

text \<open>
  The body of the \<^verbatim>\<open>for (i in obj)\<close> loop (lines 56 to 59), over the names that the loop
  visits; they are the names that \<open>obj\<close> has when the loop starts.
\<close>

fun mixin_loop :: "invoke \<Rightarrow> ref \<Rightarrow> val \<Rightarrow> string list \<Rightarrow> heap \<Rightarrow> outcome" where
  "mixin_loop invoke self ob [] h = Inr (VRef self, h)"
| "mixin_loop invoke self ob (i # ks) h =
     (case js_get h ob ''hasOwnProperty'' of
        Inl e \<Rightarrow> Inl e
      | Inr f \<Rightarrow>
          (case call_val invoke f ob [VStr i] h of
             Inl e \<Rightarrow> Inl e
           | Inr (b, h1) \<Rightarrow>
               if truthy b then
                 (case js_get h1 ob i of
                    Inl e \<Rightarrow> Inl e
                  | Inr v \<Rightarrow> mixin_loop invoke self ob ks (put h1 self i v))
               else mixin_loop invoke self ob ks h1))"

definition mixin :: "invoke \<Rightarrow> ref \<Rightarrow> val list \<Rightarrow> heap \<Rightarrow> outcome" where
  "mixin invoke self args h = mixin_loop invoke self (arg 0 args) (for_in_keys h (arg 0 args)) h"

subsection \<open>bind (lines 98 to 141)\<close>

text \<open>
  The object that \<^verbatim>\<open>new f(...)\<close> allocates before it calls \<open>f\<close>: its prototype is
  \<^verbatim>\<open>f.prototype\<close> when that is an object, \<^verbatim>\<open>Object.prototype\<close> otherwise.
  \<^verbatim>\<open>new Empty()\<close> (line 136) is this object, \<^verbatim>\<open>Empty\<close> having an empty body.
\<close>

definition construct_object :: "heap \<Rightarrow> ref \<Rightarrow> ref \<times> heap" where
  "construct_object h f =
     alloc h \<lparr>proto = Some (case prop_value (get_prop h f ''prototype'') of
                              VRef p \<Rightarrow> p
                            | _ \<Rightarrow> object_prototype),
              props = [], code = None\<rparr>"

text \<open>
  \<^verbatim>\<open>bind\<close> (lines 114 to 140): \<open>Empty\<close> is the variable of line 100, \<open>target\<close> the
  receiver. \<^verbatim>\<open>typeof target\<close> is \<^verbatim>\<open>"function"\<close> exactly when the object has code. The
  error of line 120 carries no message here.
\<close>

definition bind :: "ref \<Rightarrow> ref \<Rightarrow> val list \<Rightarrow> heap \<Rightarrow> outcome" where
  "bind Empty target arguments h =
     (if code_of h target = None then Inl TypeError
      else
        let that = arg 0 arguments;
            args = drop 1 arguments;
            (bound, h1) = new_function h (BoundCode target that args);
            tp = prop_value (get_prop h1 target ''prototype'')
        in if truthy tp then
             let h2 = put h1 Empty ''prototype'' tp;
                 (e, h3) = construct_object h2 Empty;
                 h4 = put h3 bound ''prototype'' (VRef e);
                 h5 = put h4 Empty ''prototype'' VNull
             in Inr (VRef bound, h5)
           else Inr (VRef bound, h1))"

text \<open>The closure \<^verbatim>\<open>bound\<close> (lines 123 to 133); \<open>self\<close> is the function object itself.\<close>

definition bound :: "invoke \<Rightarrow> ref \<Rightarrow> ref \<Rightarrow> val \<Rightarrow> val list \<Rightarrow> ref \<Rightarrow> val list \<Rightarrow> heap \<Rightarrow> outcome" where
  "bound invoke self target that args this arguments h =
     (case instance_of h (VRef this) self of
        Inl e \<Rightarrow> Inl e
      | Inr True \<Rightarrow>
          (case invoke target (VRef this) (args @ arguments) h of
             Inl e \<Rightarrow> Inl e
           | Inr (result, h1) \<Rightarrow>
               if is_object result then Inr (result, h1) else Inr (VRef this, h1))
      | Inr False \<Rightarrow> invoke target that (args @ arguments) h)"

subsection \<open>extend (lines 206 to 269)\<close>

text \<open>The closure \<^verbatim>\<open>_super\<close> (lines 222 to 227).\<close>

definition super :: "invoke \<Rightarrow> ref \<Rightarrow> val list \<Rightarrow> heap \<Rightarrow> outcome" where
  "super invoke this arguments h =
     (case js_get h (arg 0 arguments) ''prototype'' of
        Inl e \<Rightarrow> Inl e
      | Inr pv \<Rightarrow>
          (case js_get h pv (to_key (arg 1 arguments)) of
             Inl e \<Rightarrow> Inl e
           | Inr f \<Rightarrow> call_val invoke f (VRef this) (drop 2 arguments) h))"

text \<open>
  The store in which \<^verbatim>\<open>Class\<close> tests and calls \<^verbatim>\<open>this.init\<close>: a new \<^verbatim>\<open>_super\<close>
  closure has been assigned to \<^verbatim>\<open>this._super\<close> (line 222).
\<close>

definition install_super :: "heap \<Rightarrow> ref \<Rightarrow> heap" where
  "install_super h this = (let (sf, h1) = new_function h SuperCode in put h1 this ''_super'' (VRef sf))"

text \<open>The function \<^verbatim>\<open>Class\<close> (lines 216 to 234).\<close>

definition Class :: "invoke \<Rightarrow> ref \<Rightarrow> val list \<Rightarrow> heap \<Rightarrow> outcome" where
  "Class invoke this arguments h =
     (let h1 = install_super h this;
          init = prop_value (get_prop h1 this ''init'')
      in if truthy init then
           (case call_val invoke init (VRef this) arguments h1 of
              Inl e \<Rightarrow> Inl e
            | Inr (r, h2) \<Rightarrow> Inr (VRef this, h2))
         else Inr (VRef this, h1))"

text \<open>
  The descriptor of line 245: \<^verbatim>\<open>configurable\<close> and \<^verbatim>\<open>value\<close> are given,
  \<^verbatim>\<open>writable\<close> and \<^verbatim>\<open>enumerable\<close> are not.
\<close>

definition method_descriptor :: "val \<Rightarrow> descriptor" where
  "method_descriptor v =
     \<lparr>d_value = Some v, d_writable = None, d_enumerable = None, d_configurable = Some True\<rparr>"

text \<open>\<^verbatim>\<open>Object.defineProperty\<close> on a value: a TypeError unless it is an object.\<close>

fun define_property_val :: "heap \<Rightarrow> val \<Rightarrow> string \<Rightarrow> descriptor \<Rightarrow> js_error + heap" where
  "define_property_val h (VRef r) k d = define_property h r k d"
| "define_property_val h v k d = Inl TypeError"

text \<open>
  \<^verbatim>\<open>v[k] = x\<close> on a value: a TypeError on undefined and null; on another primitive the
  assignment is lost.
\<close>

fun put_val :: "heap \<Rightarrow> val \<Rightarrow> string \<Rightarrow> val \<Rightarrow> js_error + heap" where
  "put_val h (VRef r) k x = Inr (put h r k x)"
| "put_val h VUndef k x = Inl TypeError"
| "put_val h VNull k x = Inl TypeError"
| "put_val h v k x = Inr h"

text \<open>
  The body of the \<^verbatim>\<open>forEach\<close> of \<^verbatim>\<open>apply_methods\<close> (lines 242 to 247), over the keys
  that \<^verbatim>\<open>Object.keys(descriptor)\<close> returned: \<open>methods\<close> and \<open>cls\<close> are the variables
  \<^verbatim>\<open>methods\<close> and \<^verbatim>\<open>Class\<close> of the enclosing call of \<^verbatim>\<open>extend\<close>.
\<close>

fun apply_keys :: "ref \<Rightarrow> ref \<Rightarrow> val \<Rightarrow> string list \<Rightarrow> heap \<Rightarrow> js_error + heap" where
  "apply_keys methods cls d [] h = Inr h"
| "apply_keys methods cls d (key # ks) h =
     (case js_get h d key of
        Inl e \<Rightarrow> Inl e
      | Inr v \<Rightarrow>
          (let h1 = put h methods key v
           in case js_get h1 d key of
                Inl e \<Rightarrow> Inl e
              | Inr v' \<Rightarrow>
                  (case define_property_val h1 (prop_value (get_prop h1 cls ''prototype'')) key
                          (method_descriptor v') of
                     Inl e \<Rightarrow> Inl e
                   | Inr h2 \<Rightarrow> apply_keys methods cls d ks h2)))"

definition apply_methods :: "ref \<Rightarrow> ref \<Rightarrow> val \<Rightarrow> heap \<Rightarrow> js_error + heap" where
  "apply_methods methods cls d h =
     (case object_keys h d of
        Inl e \<Rightarrow> Inl e
      | Inr ks \<Rightarrow> apply_keys methods cls d ks h)"

text \<open>The \<^verbatim>\<open>forEach\<close> over the mixins (lines 255 to 257).\<close>

fun apply_mixins :: "ref \<Rightarrow> ref \<Rightarrow> val list \<Rightarrow> heap \<Rightarrow> js_error + heap" where
  "apply_mixins methods cls [] h = Inr h"
| "apply_mixins methods cls (m # ms) h =
     (case js_get h m ''__methods__'' of
        Inl e \<Rightarrow> Inl e
      | Inr d \<Rightarrow>
          (case apply_methods methods cls (if truthy d then d else m) h of
             Inl e \<Rightarrow> Inl e
           | Inr h1 \<Rightarrow> apply_mixins methods cls ms h1))"

text \<open>The descriptor of line 263: only \<^verbatim>\<open>value\<close> is given.\<close>

definition methods_descriptor :: "ref \<Rightarrow> descriptor" where
  "methods_descriptor methods =
     \<lparr>d_value = Some (VRef methods), d_writable = None, d_enumerable = None,
      d_configurable = None\<rparr>"

text \<open>
  \<^verbatim>\<open>extend\<close> itself. The declared function \<^verbatim>\<open>Class\<close> exists when the body starts;
  \<^verbatim>\<open>apply_methods\<close> and the two \<^verbatim>\<open>forEach\<close> callbacks are never stored, and are not
  allocated here.
\<close>

definition extend :: "ref \<Rightarrow> val list \<Rightarrow> heap \<Rightarrow> outcome" where
  "extend this mixins h =
     (let (cls, h1) = new_function h ClassCode;
          (methods, h2) = alloc h1 plain_object
      in case object_create h2 (prop_value (get_prop h2 this ''prototype'')) of
           Inl e \<Rightarrow> Inl e
         | Inr (cp, h3) \<Rightarrow>
             (let h4 = put h3 cls ''prototype'' (VRef cp)
              in case apply_mixins methods cls mixins h4 of
                   Inl e \<Rightarrow> Inl e
                 | Inr h5 \<Rightarrow>
                     (let pv = prop_value (get_prop h5 cls ''prototype'')
                      in case js_get h5 pv ''init'' of
                           Inl e \<Rightarrow> Inl e
                         | Inr init \<Rightarrow>
                             (case put_val h5 pv ''constructor''
                                     (if truthy init then init else VRef cls) of
                                Inl e \<Rightarrow> Inl e
                              | Inr h6 \<Rightarrow>
                                  (case define_property h6 cls ''__methods__''
                                          (methods_descriptor methods) of
                                     Inl e \<Rightarrow> Inl e
                                   | Inr h7 \<Rightarrow> Inr (VRef cls, h7))))))"

section \<open>Calls\<close>

text \<open>
  The host's call of a function object, \<open>n\<close> calls deep at most. A user's function \<open>i\<close>
  is \<open>U invoke i\<close>, which may call back through \<open>invoke\<close>. The functions of object.js are
  not in strict mode and receive their \<^verbatim>\<open>this\<close> as an object.
\<close>

primrec host_call :: "nat \<Rightarrow> user \<Rightarrow> ref \<Rightarrow> val \<Rightarrow> val list \<Rightarrow> heap \<Rightarrow> outcome" where
  "host_call 0 U f this args h = Inl OutOfFuel"
| "host_call (Suc n) U f this args h =
     (case code_of h f of
        None \<Rightarrow> Inl TypeError
      | Some c \<Rightarrow>
          (case c of
             UserCode i \<Rightarrow> U (host_call n U) i this args h
           | HasOwnPropertyCode \<Rightarrow>
               (case has_own_property h this (to_key (arg 0 args)) of
                  Inl e \<Rightarrow> Inl e
                | Inr b \<Rightarrow> Inr (VBool b, h))
           | EmptyCode \<Rightarrow> Inr (VUndef, h)
           | BindCode e \<Rightarrow> (let (t, h1) = this_object h this in bind e t args h1)
           | BoundCode target that cs \<Rightarrow>
               (let (t, h1) = this_object h this
                in bound (host_call n U) f target that cs t args h1)
           | MixinCode \<Rightarrow> (let (t, h1) = this_object h this in mixin (host_call n U) t args h1)
           | ExtendCode \<Rightarrow> (let (t, h1) = this_object h this in extend t args h1)
           | ClassCode \<Rightarrow> (let (t, h1) = this_object h this in Class (host_call n U) t args h1)
           | SuperCode \<Rightarrow> (let (t, h1) = this_object h this in super (host_call n U) t args h1)))"

text \<open>
  \<^verbatim>\<open>new c(args)\<close>: a new object whose prototype is \<^verbatim>\<open>c.prototype\<close>; the result is what
  the function returns when that is an object, the new object otherwise.
\<close>

definition js_new :: "invoke \<Rightarrow> val \<Rightarrow> val list \<Rightarrow> heap \<Rightarrow> outcome" where
  "js_new invoke c args h =
     (case c of
        VRef f \<Rightarrow>
          if code_of h f = None then Inl TypeError
          else
            (let (ob, h1) = construct_object h f
             in case invoke f (VRef ob) args h1 of
                  Inl e \<Rightarrow> Inl e
                | Inr (r, h2) \<Rightarrow> if is_object r then Inr (r, h2) else Inr (VRef ob, h2))
      | _ \<Rightarrow> Inl TypeError)"

text \<open>\<^verbatim>\<open>ob.m(args)\<close>: the function found under \<open>m\<close> is called with \<open>ob\<close> as receiver.\<close>

definition call_method :: "invoke \<Rightarrow> val \<Rightarrow> string \<Rightarrow> val list \<Rightarrow> heap \<Rightarrow> outcome" where
  "call_method invoke ob m args h =
     (case js_get h ob m of
        Inl e \<Rightarrow> Inl e
      | Inr f \<Rightarrow> call_val invoke f ob args h)"

section \<open>Loading object.js\<close>

text \<open>
  The top level of the script, on a host with \<^verbatim>\<open>Object.defineProperty\<close> and
  \<^verbatim>\<open>Object.create\<close> (lines 17 and 68 find them present): \<^verbatim>\<open>mixin\<close> (line 48), the
  \<^verbatim>\<open>bind\<close> fallback where \<^verbatim>\<open>Function.prototype.bind\<close> is missing (line 98), and
  \<^verbatim>\<open>extend\<close> (line 206).
\<close>

definition load :: "heap \<Rightarrow> js_error + heap" where
  "load h =
     (let (m, h1) = new_function h MixinCode
      in case define_property h1 object_prototype ''mixin''
                \<lparr>d_value = Some (VRef m), d_writable = None,
                 d_enumerable = Some False, d_configurable = Some False\<rparr> of
           Inl e \<Rightarrow> Inl e
         | Inr h2 \<Rightarrow>
             (let h5 =
                (if truthy (prop_value (get_prop h2 function_prototype ''bind'')) then h2
                 else (let (e, h3) = new_function h2 EmptyCode;
                           (b, h4) = new_function h3 (BindCode e)
                       in put h4 function_prototype ''bind'' (VRef b)));
                  (x, h6) = new_function h5 ExtendCode
              in define_property h6 object_prototype ''extend''
                   \<lparr>d_value = Some (VRef x), d_writable = None,
                    d_enumerable = None, d_configurable = None\<rparr>))"

text \<open>
  An ECMAScript 5 host without \<^verbatim>\<open>Function.prototype.bind\<close>: \<^verbatim>\<open>Object.prototype\<close>,
  \<^verbatim>\<open>Function.prototype\<close>, the global object, the function \<^verbatim>\<open>Object\<close> and the builtin
  \<^verbatim>\<open>hasOwnProperty\<close>, at references 0 to 4. The function \<^verbatim>\<open>Object\<close> is host code,
  \<open>UserCode 0\<close>. The other builtin properties of \<^verbatim>\<open>Object.prototype\<close> and
  \<^verbatim>\<open>Function.prototype\<close> are writable and not enumerable, and are left out.
\<close>

definition host_heap :: heap where
  "host_heap =
     [\<lparr>proto = None,
       props = [(''constructor'', data_prop (VRef 3) True False True),
                (''hasOwnProperty'', data_prop (VRef 4) True False True)],
       code = None\<rparr>,
      \<lparr>proto = Some 0, props = [], code = Some EmptyCode\<rparr>,
      \<lparr>proto = Some 0, props = [], code = None\<rparr>,
      \<lparr>proto = Some 1,
       props = [(''prototype'', data_prop (VRef 0) False False False)],
       code = Some (UserCode 0)\<rparr>,
      \<lparr>proto = Some 1, props = [], code = Some HasOwnPropertyCode\<rparr>]"

definition loaded_heap :: heap where
  "loaded_heap = (case load host_heap of Inl e \<Rightarrow> [] | Inr h \<Rightarrow> h)"

section \<open>The example of the documentation\<close>

text \<open>
  The classes of the comment above \<^verbatim>\<open>extend\<close> (lines 155 to 183), run on the loaded
  store. A top-level \<^verbatim>\<open>var\<close> is a property of the global object, and the user's
  functions find the classes there.
\<close>

definition object_literal :: "heap \<Rightarrow> (string \<times> val) list \<Rightarrow> ref \<times> heap" where
  "object_literal h kvs =
     alloc h \<lparr>proto = Some object_prototype,
              props = map (\<lambda>kv. (fst kv, data_prop (snd kv) True True True)) kvs, code = None\<rparr>"

definition the_heap :: "outcome \<Rightarrow> heap" where
  "the_heap r = (case r of Inl e \<Rightarrow> [] | Inr vh \<Rightarrow> snd vh)"

definition the_val :: "outcome \<Rightarrow> val" where
  "the_val r = (case r of Inl e \<Rightarrow> VUndef | Inr vh \<Rightarrow> fst vh)"

definition global_var :: "heap \<Rightarrow> string \<Rightarrow> val" where
  "global_var h x = prop_value (get_prop h global_object x)"

text \<open>
  The user's functions: 1 and 2 are \<^verbatim>\<open>init\<close> and \<^verbatim>\<open>dance\<close> of \<^verbatim>\<open>Person\<close>; 3, 4 and 5
  are \<^verbatim>\<open>init\<close>, \<^verbatim>\<open>dance\<close> and \<^verbatim>\<open>swingSword\<close> of \<^verbatim>\<open>Ninja\<close>; 6 is \<^verbatim>\<open>init\<close> of
  \<^verbatim>\<open>Pirate\<close>; 7 returns the string \<^verbatim>\<open>"other"\<close>.
\<close>

definition demo_user :: user where
  "demo_user invoke i this args h =
     (if i = 1 then
        (case put_val h this ''dancing'' (arg 0 args) of
           Inl e \<Rightarrow> Inl e
         | Inr h1 \<Rightarrow> Inr (VUndef, h1))
      else if i = 2 then
        (case js_get h this ''dancing'' of
           Inl e \<Rightarrow> Inl e
         | Inr v \<Rightarrow> Inr (v, h))
      else if i = 3 then
        (case call_method invoke this ''_super''
                [global_var h ''Person'', VStr ''init'', VBool False] h of
           Inl e \<Rightarrow> Inl e
         | Inr (r, h1) \<Rightarrow> Inr (VUndef, h1))
      else if i = 4 then
        call_method invoke this ''_super'' [global_var h ''Person'', VStr ''dance''] h
      else if i = 5 then Inr (VBool True, h)
      else if i = 6 then
        (case call_method invoke this ''_super''
                [global_var h ''Person'', VStr ''init'', VBool True] h of
           Inl e \<Rightarrow> Inl e
         | Inr (r, h1) \<Rightarrow> Inr (VUndef, h1))
      else if i = 7 then Inr (VStr ''other'', h)
      else Inr (VUndef, h))"

definition demo_call :: invoke where
  "demo_call = host_call 8 demo_user"

text \<open>\<^verbatim>\<open>var name = parent.extend(mixins...)\<close>.\<close>

definition define_class :: "string \<Rightarrow> val \<Rightarrow> val list \<Rightarrow> heap \<Rightarrow> heap" where
  "define_class name parent mixins h =
     (case call_method demo_call parent ''extend'' mixins h of
        Inl e \<Rightarrow> []
      | Inr (c, h1) \<Rightarrow> put h1 global_object name c)"

definition demo_person :: heap where
  "demo_person =
     (let (init, h1) = new_function loaded_heap (UserCode 1);
          (dance, h2) = new_function h1 (UserCode 2);
          (d, h3) = object_literal h2 [(''init'', VRef init), (''dance'', VRef dance)]
      in define_class ''Person'' (VRef 3) [VRef d] h3)"

definition demo_ninja_before :: heap where
  "demo_ninja_before =
     (let (init, h1) = new_function demo_person (UserCode 3);
          (dance, h2) = new_function h1 (UserCode 4);
          (swing, h3) = new_function h2 (UserCode 5);
          (d, h4) = object_literal h3
             [(''init'', VRef init), (''dance'', VRef dance), (''swingSword'', VRef swing)]
      in h4)"

text \<open>\<^verbatim>\<open>Person\<close> is object 18 and the literal is object 28.\<close>

definition demo_ninja :: heap where
  "demo_ninja = define_class ''Ninja'' (VRef 18) [VRef 28] demo_ninja_before"

definition demo_pirate_before :: heap where
  "demo_pirate_before =
     (let (init, h1) = new_function demo_ninja (UserCode 6);
          (d, h2) = object_literal h1 [(''init'', VRef init)]
      in h2)"



text \<open>
  \<^verbatim>\<open>var S = Object.extend({ "_super" : function () { return "other"; } })\<close> and
  \<^verbatim>\<open>new S()\<close>: the function is object 13, the literal object 15, the class object 16.
\<close>

definition demo_shadow :: heap where
  "demo_shadow =
     (let (f, h1) = new_function loaded_heap (UserCode 7);
          (d, h2) = object_literal h1 [(''_super'', VRef f)]
      in define_class ''S'' (VRef 3) [VRef d] h2)"

definition demo_shadow_instance :: heap where
  "demo_shadow_instance = the_heap (js_new demo_call (VRef 16) [] demo_shadow)"


text \<open>
  \<^verbatim>\<open>var src = { swingSword : f, extend : g }\<close> and \<^verbatim>\<open>var r = {}\<close>, before
  \<^verbatim>\<open>r.mixin(src)\<close>: \<open>f\<close> is object 13, \<open>g\<close> object 15, \<open>src\<close> object 17 and \<open>r\<close>
  object 18.
\<close>

definition demo_mixin_before :: heap where
  "demo_mixin_before =
     (let (f, h1) = new_function loaded_heap (UserCode 5);
          (g, h2) = new_function h1 (UserCode 7);
          (src, h3) = object_literal h2 [(''swingSword'', VRef f), (''extend'', VRef g)];
          (r, h4) = object_literal h3 []
      in h4)"

text \<open>
  \<^verbatim>\<open>var A = Object.extend({ dance : f, extend : g })\<close> and \<^verbatim>\<open>var B = Object.extend(A)\<close>:
  \<open>f\<close> is object 13, \<open>g\<close> object 15, \<open>A\<close> object 18 with method record 20 and prototype
  21, \<open>B\<close> object 22 with method record 24 and prototype 25.
\<close>

definition demo_registry_a :: heap where
  "demo_registry_a =
     (let (f, h1) = new_function loaded_heap (UserCode 2);
          (g, h2) = new_function h1 (UserCode 7);
          (d, h3) = object_literal h2 [(''dance'', VRef f), (''extend'', VRef g)]
      in define_class ''A'' (VRef 3) [VRef d] h3)"

definition demo_registry_b :: heap where
  "demo_registry_b = define_class ''B'' (VRef 3) [VRef 18] demo_registry_a"

text \<open>
  \<^verbatim>\<open>var S2 = Person.extend({ "_super" : function () { return "other"; } })\<close> and
  \<^verbatim>\<open>var s = new S2(true)\<close>: the function is object 22, the literal object 24, the class
  object 25 with prototype 28, and \<open>s\<close> object 29.
\<close>

definition demo_shadow_person :: heap where
  "demo_shadow_person =
     (let (f, h1) = new_function demo_person (UserCode 7);
          (d, h2) = object_literal h1 [(''_super'', VRef f)]
      in define_class ''S2'' (VRef 18) [VRef d] h2)"

definition demo_shadow_person_instance :: heap where
  "demo_shadow_person_instance =
     the_heap (js_new demo_call (VRef 25) [VBool True] demo_shadow_person)"

section \<open>The merged method set\<close>

text \<open>
  What the specification calls the merged method set of a call of \<^verbatim>\<open>extend\<close>: the
  methods of each mixin, in the order of the arguments. The descriptor of a mixin is
  \<^verbatim>\<open>mixin.__methods__ || mixin\<close> (line 256), and its methods are the values under the names
  that \<^verbatim>\<open>Object.keys\<close> lists. Where a name occurs more than once, \<open>later_wins\<close> takes the
  last entry.
\<close>

definition descriptor_of :: "heap \<Rightarrow> val \<Rightarrow> val" where
  "descriptor_of h m =
     (case js_get h m ''__methods__'' of
        Inl e \<Rightarrow> m
      | Inr d \<Rightarrow> if truthy d then d else m)"

definition methods_of :: "heap \<Rightarrow> val \<Rightarrow> (string \<times> val) list" where
  "methods_of h m =
     (case descriptor_of h m of
        VRef r \<Rightarrow> map (\<lambda>k. (k, prop_value (get_prop h r k))) (own_enumerable h r)
      | _ \<Rightarrow> [])"

definition merged_methods :: "heap \<Rightarrow> val list \<Rightarrow> (string \<times> val) list" where
  "merged_methods h ms = concat (map (methods_of h) ms)"

definition known :: "heap \<Rightarrow> val \<Rightarrow> bool" where
  "known h v = (case v of VRef r \<Rightarrow> r < length h | _ \<Rightarrow> True)"

definition known_mixins :: "heap \<Rightarrow> val list \<Rightarrow> bool" where
  "known_mixins h ms = list_all (\<lambda>m. known h m \<and> known h (descriptor_of h m)) ms"

definition later_wins :: "(string \<times> val) list \<Rightarrow> string \<Rightarrow> val option" where
  "later_wins entries k = map_of (rev entries) k"

text \<open>
  The store while the loop of \<^verbatim>\<open>extend\<close> runs, \<open>h0\<close> being the store at the call: the class,
  its method record and its prototype are three new objects, the old objects are as they
  were, \<^verbatim>\<open>Class.prototype\<close> is the new prototype, and every property of the new prototype
  was defined by line 244.
\<close>

definition ext_state :: "heap \<Rightarrow> ref \<Rightarrow> ref \<Rightarrow> ref \<Rightarrow> heap \<Rightarrow> bool" where
  "ext_state h0 cls methods cp h =
     (length h0 \<le> cls \<and> length h0 \<le> methods \<and> length h0 \<le> cp
      \<and> cls \<noteq> methods \<and> cls \<noteq> cp \<and> methods \<noteq> cp
      \<and> cls < length h \<and> methods < length h \<and> cp < length h
      \<and> take (length h0) h = h0
      \<and> (\<exists>pr. own_prop h cls ''prototype'' = Some pr \<and> pvalue pr = VRef cp)
      \<and> (\<forall>k p. own_prop h cp k = Some p \<longrightarrow> p = data_prop (pvalue p) False False True))"

text \<open>
  The object that \<^verbatim>\<open>new\<close> allocates for a class whose \<^verbatim>\<open>prototype\<close> is the object \<open>cp\<close>.
\<close>

definition instance_object :: "ref \<Rightarrow> obj" where
  "instance_object cp = \<lparr>proto = Some cp, props = [], code = None\<rparr>"

text \<open>
  What \<^verbatim>\<open>[[CanPut]]\<close> asks of the property found on the prototype chain: no property, or
  a writable one.
\<close>

definition assignable :: "property option \<Rightarrow> bool" where
  "assignable po = (case po of None \<Rightarrow> True | Some p \<Rightarrow> writable p)"

section \<open>What a write changes\<close>

lemma length_set_own [simp]: "length (set_own h r k p) = length h"
  by (simp add: set_own_def)

lemma length_put [simp]: "length (put h r k v) = length h"
  by (simp add: put_def split: option.splits)

lemma length_define_property: "define_property h r k d = Inr h' \<Longrightarrow> length h' = length h"
  by (auto simp: define_property_def split: option.splits if_splits)

lemma proto_of_set_own [simp]: "proto_of (set_own h r k p) q = proto_of h q"
  by (simp add: set_own_def proto_of_def nth_list_update)

lemma code_of_set_own [simp]: "code_of (set_own h r k p) q = code_of h q"
  by (simp add: set_own_def code_of_def nth_list_update)

lemma own_props_set_own:
  "own_props (set_own h r k p) q =
     (if q = r \<and> r < length h then AList.update k p (own_props h r) else own_props h q)"
  by (simp add: set_own_def own_props_def nth_list_update)

lemma own_prop_set_own:
  "own_prop (set_own h r k p) q k' =
     (if q = r \<and> r < length h \<and> k' = k then Some p else own_prop h q k')"
  by (simp add: own_prop_def own_props_set_own update_conv')

lemma proto_of_put [simp]: "proto_of (put h r k v) q = proto_of h q"
  by (simp add: put_def split: option.splits)

lemma code_of_put [simp]: "code_of (put h r k v) q = code_of h q"
  by (simp add: put_def split: option.splits)

lemma own_prop_put_other:
  "q \<noteq> r \<or> k' \<noteq> k \<Longrightarrow> own_prop (put h r k v) q k' = own_prop h q k'"
  by (auto simp: put_def own_prop_set_own split: option.splits)

lemma own_props_put_other: "q \<noteq> r \<Longrightarrow> own_props (put h r k v) q = own_props h q"
  by (auto simp: put_def own_props_set_own split: option.splits)

lemma proto_of_define_property:
  "define_property h r k d = Inr h' \<Longrightarrow> proto_of h' q = proto_of h q"
  by (auto simp: define_property_def split: option.splits if_splits)

lemma code_of_define_property:
  "define_property h r k d = Inr h' \<Longrightarrow> code_of h' q = code_of h q"
  by (auto simp: define_property_def split: option.splits if_splits)

lemma own_prop_define_property_other:
  "define_property h r k d = Inr h' \<Longrightarrow> q \<noteq> r \<or> k' \<noteq> k \<Longrightarrow> own_prop h' q k' = own_prop h q k'"
  by (auto simp: define_property_def own_prop_set_own split: option.splits if_splits)

lemma own_props_define_property_other:
  "define_property h r k d = Inr h' \<Longrightarrow> q \<noteq> r \<Longrightarrow> own_props h' q = own_props h q"
  by (auto simp: define_property_def own_props_set_own split: option.splits if_splits)

text \<open>A lookup from \<open>r\<close> reads the objects up to \<open>r\<close> only.\<close>

lemma get_prop_cong:
  "(\<And>q. q \<le> r \<Longrightarrow> own_prop h' q k = own_prop h q k \<and> proto_of h' q = proto_of h q)
   \<Longrightarrow> get_prop h' r k = get_prop h r k"
proof (induction r rule: less_induct)
  case (less r)
  have own: "own_prop h' r k = own_prop h r k" and pr: "proto_of h' r = proto_of h r"
    using less.prems [of r] by simp_all
  show ?case
  proof (cases "own_prop h r k")
    case (Some p)
    then show ?thesis using own by (simp add: get_prop.simps [of _ r])
  next
    case None
    show ?thesis
    proof (cases "proto_of h r")
      case None
      then show ?thesis using own pr \<open>own_prop h r k = None\<close> by (simp add: get_prop.simps [of _ r])
    next
      case (Some q)
      show ?thesis
      proof (cases "q < r")
        case True
        have "get_prop h' q k = get_prop h q k"
          using less.IH [OF True] less.prems True by simp
        then show ?thesis
          using own pr Some True \<open>own_prop h r k = None\<close> by (simp add: get_prop.simps [of _ r])
      next
        case False
        then show ?thesis
          using own pr Some \<open>own_prop h r k = None\<close> by (simp add: get_prop.simps [of _ r])
      qed
    qed
  qed
qed

lemma get_prop_put_other: "k' \<noteq> k \<Longrightarrow> get_prop (put h r k v) q k' = get_prop h q k'"
  by (rule get_prop_cong) (simp add: own_prop_put_other)

lemma own_props_append [simp]: "q < length h \<Longrightarrow> own_props (h @ xs) q = own_props h q"
  by (simp add: own_props_def nth_append)

lemma own_prop_append [simp]: "q < length h \<Longrightarrow> own_prop (h @ xs) q k = own_prop h q k"
  by (simp add: own_prop_def)

lemma proto_of_append [simp]: "q < length h \<Longrightarrow> proto_of (h @ xs) q = proto_of h q"
  by (simp add: proto_of_def nth_append)

lemma code_of_append [simp]: "q < length h \<Longrightarrow> code_of (h @ xs) q = code_of h q"
  by (simp add: code_of_def nth_append)

lemma get_prop_append [simp]: "r < length h \<Longrightarrow> get_prop (h @ xs) r k = get_prop h r k"
  by (rule get_prop_cong) simp

lemma get_prop_own: "own_prop h r k = Some p \<Longrightarrow> get_prop h r k = Some p"
  by (simp add: get_prop.simps [of h r])




lemma new_function_facts:
  assumes "new_function h c = (f, h1)"
  shows "f = length h" and "length h1 = length h + 2" and "h1 = h @ drop (length h) h1"
    and "code_of h1 f = Some c"
    and "own_props h1 f = [(''prototype'', data_prop (VRef (Suc f)) True False False)]"
    and "own_prop h1 f ''prototype'' = Some (data_prop (VRef (Suc f)) True False False)"
    and "proto_of h1 f = Some function_prototype"
  using assms
  by (auto simp: new_function_def Let_def code_of_def own_props_def own_prop_def proto_of_def nth_append)

text \<open>A result that is not an error is the pair of its value and its store.\<close>

lemma outcome_collapse: "\<not> isl r \<Longrightarrow> r = Inr (the_val r, the_heap r)"
  by (cases r) (simp_all add: the_val_def the_heap_def)

section \<open>The run of extend\<close>

lemma take_set_own: "n \<le> r \<Longrightarrow> take n (set_own h r k p) = take n h"
  by (simp add: set_own_def)

lemma take_put: "n \<le> r \<Longrightarrow> take n (put h r k v) = take n h"
  by (simp add: put_def take_set_own split: option.splits)

lemma take_define_property:
  "define_property h r k d = Inr h' \<Longrightarrow> n \<le> r \<Longrightarrow> take n h' = take n h"
  by (auto simp: define_property_def take_set_own split: option.splits if_splits)

lemma old_nth: "take (length h0) h = h0 \<Longrightarrow> r < length h0 \<Longrightarrow> r < length h \<and> h ! r = h0 ! r"
  by (metis length_take min_less_iff_conj nth_take)

lemma old_own_prop: "take (length h0) h = h0 \<Longrightarrow> r < length h0 \<Longrightarrow> own_prop h r k = own_prop h0 r k"
  using old_nth [of h0 h r] by (simp add: own_prop_def own_props_def)

lemma old_own_props: "take (length h0) h = h0 \<Longrightarrow> r < length h0 \<Longrightarrow> own_props h r = own_props h0 r"
  using old_nth [of h0 h r] by (simp add: own_props_def)

lemma old_proto_of: "take (length h0) h = h0 \<Longrightarrow> r < length h0 \<Longrightarrow> proto_of h r = proto_of h0 r"
  using old_nth [of h0 h r] by (simp add: proto_of_def)

lemma old_code_of: "take (length h0) h = h0 \<Longrightarrow> r < length h0 \<Longrightarrow> code_of h r = code_of h0 r"
  using old_nth [of h0 h r] by (simp add: code_of_def)

lemma old_get_prop: "take (length h0) h = h0 \<Longrightarrow> r < length h0 \<Longrightarrow> get_prop h r k = get_prop h0 r k"
  by (rule get_prop_cong) (simp add: old_own_prop old_proto_of)

lemma old_own_enumerable:
  "take (length h0) h = h0 \<Longrightarrow> r < length h0 \<Longrightarrow> own_enumerable h r = own_enumerable h0 r"
  by (simp add: own_enumerable_def old_own_props)

text \<open>One key of \<^verbatim>\<open>apply_methods\<close>: the assignment to \<^verbatim>\<open>methods\<close>, then the definition on
  the new prototype.\<close>

lemma define_method:
  assumes "ext_state h0 cls methods cp h"
  shows "\<exists>h'. define_property h cp key (method_descriptor v) = Inr h'
     \<and> ext_state h0 cls methods cp h'
     \<and> (\<forall>k. own_prop h' cp k = (if k = key then Some (data_prop v False False True) else own_prop h cp k))
     \<and> (\<forall>q. q \<noteq> cp \<longrightarrow> own_props h' q = own_props h q)"
proof (cases "own_prop h cp key")
  case None
  define h' where "h' = set_own h cp key (data_prop v False False True)"
  have d: "define_property h cp key (method_descriptor v) = Inr h'"
    using None by (simp add: define_property_def method_descriptor_def or_default_def h'_def)
  have "ext_state h0 cls methods cp h'"
    using assms unfolding ext_state_def h'_def
    by (auto simp: take_set_own own_prop_set_own data_prop_def)
  then show ?thesis
    using d assms by (auto simp: h'_def own_prop_set_own own_props_set_own ext_state_def)
next
  case (Some p)
  then have p: "p = data_prop (pvalue p) False False True"
    using assms by (simp add: ext_state_def)
  define h' where "h' = set_own h cp key (data_prop v False False True)"
  have "\<not> rejects p (method_descriptor v)"
    using p by (simp add: rejects_def data_prop_def) (metis property.select_convs(4))
  then have d: "define_property h cp key (method_descriptor v) = Inr h'"
    using Some p
    by (simp add: define_property_def method_descriptor_def or_default_def h'_def data_prop_def)
       (metis property.select_convs(2) property.select_convs(3))
  have "ext_state h0 cls methods cp h'"
    using assms unfolding ext_state_def h'_def
    by (auto simp: take_set_own own_prop_set_own data_prop_def)
  then show ?thesis
    using d assms by (auto simp: h'_def own_prop_set_own own_props_set_own ext_state_def)
qed

lemma put_methods:
  assumes "ext_state h0 cls methods cp h"
  shows "ext_state h0 cls methods cp (put h methods key v)
     \<and> (\<forall>q. q \<noteq> methods \<longrightarrow> own_props (put h methods key v) q = own_props h q)"
  using assms unfolding ext_state_def
  by (auto simp: take_put own_prop_put_other own_props_put_other)

lemma ext_state_prototype:
  "ext_state h0 cls methods cp h \<Longrightarrow> prop_value (get_prop h cls ''prototype'') = VRef cp"
  by (auto simp: ext_state_def prop_value_def dest: get_prop_own)

lemma ext_state_take: "ext_state h0 cls methods cp h \<Longrightarrow> take (length h0) h = h0"
  by (simp add: ext_state_def)

lemma apply_keys_step:
  assumes "ext_state h0 cls methods cp h"
    and "apply_keys methods cls d (key # ks) h = Inr h'"
  shows "\<exists>v v' h1 h2. js_get h d key = Inr v \<and> h1 = put h methods key v
     \<and> js_get h1 d key = Inr v'
     \<and> define_property h1 cp key (method_descriptor v') = Inr h2
     \<and> apply_keys methods cls d ks h2 = Inr h'"
proof -
  from assms(2) obtain v where v: "js_get h d key = Inr v"
    by (auto split: sum.splits)
  define h1 where "h1 = put h methods key v"
  have e1: "ext_state h0 cls methods cp h1"
    using put_methods [OF assms(1)] by (simp add: h1_def)
  from assms(2) v obtain v' where v': "js_get h1 d key = Inr v'"
    by (auto simp: Let_def h1_def split: sum.splits)
  from assms(2) v v' obtain h2 where
    "define_property h1 cp key (method_descriptor v') = Inr h2"
    "apply_keys methods cls d ks h2 = Inr h'"
    using ext_state_prototype [OF e1]
    by (auto simp: Let_def h1_def split: sum.splits)
  then show ?thesis using v v' h1_def by blast
qed

lemma apply_keys_inv:
  assumes "ext_state h0 cls methods cp h"
    and "apply_keys methods cls d ks h = Inr h'"
  shows "ext_state h0 cls methods cp h'
     \<and> (\<forall>q. q \<noteq> cp \<and> q \<noteq> methods \<longrightarrow> own_props h' q = own_props h q)
     \<and> (\<forall>q. proto_of h' q = proto_of h q \<and> code_of h' q = code_of h q)
     \<and> length h' = length h"
  using assms
proof (induction ks arbitrary: h)
  case Nil
  then show ?case by simp
next
  case (Cons key ks)
  from apply_keys_step [OF Cons.prems] obtain v v' h1 h2 where
    h1: "h1 = put h methods key v"
    and d: "define_property h1 cp key (method_descriptor v') = Inr h2"
    and rest: "apply_keys methods cls d ks h2 = Inr h'"
    by blast
  have e1: "ext_state h0 cls methods cp h1"
    and o1: "\<forall>q. q \<noteq> methods \<longrightarrow> own_props h1 q = own_props h q"
    using put_methods [OF Cons.prems(1)] by (simp_all add: h1)
  from define_method [OF e1, of key v'] d have e2: "ext_state h0 cls methods cp h2"
    and o2: "\<forall>q. q \<noteq> cp \<longrightarrow> own_props h2 q = own_props h1 q"
    by auto
  have p2: "\<forall>q. proto_of h2 q = proto_of h q \<and> code_of h2 q = code_of h q"
    using proto_of_define_property [OF d] code_of_define_property [OF d] by (simp add: h1)
  have l2: "length h2 = length h"
    using length_define_property [OF d] by (simp add: h1)
  from Cons.IH [OF e2 rest] show ?case
    using o1 o2 p2 l2 by simp
qed

lemma apply_keys_old:
  assumes "ext_state h0 cls methods cp h"
    and "r < length h0"
    and "apply_keys methods cls (VRef r) ks h = Inr h'"
  shows "own_prop h' cp k =
     (if k \<in> set ks then Some (data_prop (prop_value (get_prop h0 r k)) False False True)
      else own_prop h cp k)"
  using assms(1,3)
proof (induction ks arbitrary: h)
  case Nil
  then show ?case by simp
next
  case (Cons key ks)
  from apply_keys_step [OF Cons.prems] obtain v v' h1 h2 where
    h1: "h1 = put h methods key v"
    and v': "js_get h1 (VRef r) key = Inr v'"
    and d: "define_property h1 cp key (method_descriptor v') = Inr h2"
    and rest: "apply_keys methods cls (VRef r) ks h2 = Inr h'"
    by blast
  have e1: "ext_state h0 cls methods cp h1"
    and o1: "\<forall>q. q \<noteq> methods \<longrightarrow> own_props h1 q = own_props h q"
    using put_methods [OF Cons.prems(1)] by (simp_all add: h1)
  have "v' = prop_value (get_prop h0 r key)"
    using v' old_get_prop [OF ext_state_take [OF e1] assms(2)] by simp
  with define_method [OF e1, of key v'] d have e2: "ext_state h0 cls methods cp h2"
    and o2: "\<forall>k. own_prop h2 cp k =
       (if k = key then Some (data_prop (prop_value (get_prop h0 r key)) False False True)
        else own_prop h1 cp k)"
    by auto
  have "cp \<noteq> methods" using e1 by (simp add: ext_state_def)
  then have "own_prop h1 cp k = own_prop h cp k"
    using o1 by (simp add: own_prop_def)
  with Cons.IH [OF e2 rest] o2 show ?case by auto
qed

lemma old_js_get:
  "take (length h0) h = h0 \<Longrightarrow> known h0 v \<Longrightarrow> object_prototype < length h0
   \<Longrightarrow> js_get h v k = js_get h0 v k"
proof -
  assume tk: "take (length h0) h = h0" and kn: "known h0 v" and op: "object_prototype < length h0"
  have "get_prop h object_prototype k = get_prop h0 object_prototype k"
    using tk op by (rule old_get_prop)
  then show ?thesis
    using tk kn by (cases v) (simp_all add: known_def old_get_prop split: option.splits)
qed

lemma map_of_rev_keyed:
  "map_of (rev (map (\<lambda>k. (k, f k)) ks)) k = (if k \<in> set ks then Some (f k) else None)"
  by (induction ks) (auto simp: map_add_def split: option.splits)

lemma apply_mixins_step:
  assumes "apply_mixins methods cls (m # ms) h = Inr h'"
  shows "\<exists>d r h1. js_get h m ''__methods__'' = Inr d
     \<and> (if truthy d then d else m) = VRef r
     \<and> apply_keys methods cls (VRef r) (own_enumerable h r) h = Inr h1
     \<and> apply_mixins methods cls ms h1 = Inr h'"
proof -
  from assms obtain d where d: "js_get h m ''__methods__'' = Inr d"
    by (auto split: sum.splits)
  from assms d obtain h1 where
    a: "apply_methods methods cls (if truthy d then d else m) h = Inr h1"
    and rest: "apply_mixins methods cls ms h1 = Inr h'"
    by (auto split: sum.splits)
  from a obtain r where r: "(if truthy d then d else m) = VRef r"
    by (cases "if truthy d then d else m") (auto simp: apply_methods_def)
  with a have "apply_keys methods cls (VRef r) (own_enumerable h r) h = Inr h1"
    by (simp add: apply_methods_def)
  with d r rest show ?thesis by blast
qed

lemma apply_mixins_inv:
  assumes "ext_state h0 cls methods cp h"
    and "apply_mixins methods cls ms h = Inr h'"
  shows "ext_state h0 cls methods cp h'
     \<and> (\<forall>q. q \<noteq> cp \<and> q \<noteq> methods \<longrightarrow> own_props h' q = own_props h q)
     \<and> (\<forall>q. proto_of h' q = proto_of h q \<and> code_of h' q = code_of h q)
     \<and> length h' = length h"
  using assms
proof (induction ms arbitrary: h)
  case Nil
  then show ?case by simp
next
  case (Cons m ms)
  from apply_mixins_step [OF Cons.prems(2)] obtain r h1 where
    k: "apply_keys methods cls (VRef r) (own_enumerable h r) h = Inr h1"
    and rest: "apply_mixins methods cls ms h1 = Inr h'"
    by blast
  from apply_keys_inv [OF Cons.prems(1) k] Cons.IH [OF _ rest] show ?case by simp
qed

lemma apply_mixins_old:
  assumes "ext_state h0 cls methods cp h"
    and "object_prototype < length h0"
    and "known_mixins h0 ms"
    and "apply_mixins methods cls ms h = Inr h'"
  shows "own_prop h' cp k =
     (case map_of (rev (merged_methods h0 ms)) k of
        Some v \<Rightarrow> Some (data_prop v False False True)
      | None \<Rightarrow> own_prop h cp k)"
  using assms(1,3,4)
proof (induction ms arbitrary: h)
  case Nil
  then show ?case by (simp add: merged_methods_def)
next
  case (Cons m ms)
  from apply_mixins_step [OF Cons.prems(3)] obtain d r h1 where
    d: "js_get h m ''__methods__'' = Inr d"
    and r: "(if truthy d then d else m) = VRef r"
    and k: "apply_keys methods cls (VRef r) (own_enumerable h r) h = Inr h1"
    and rest: "apply_mixins methods cls ms h1 = Inr h'"
    by blast
  have tk: "take (length h0) h = h0" using Cons.prems(1) by (rule ext_state_take)
  have km: "known h0 m" "known h0 (descriptor_of h0 m)" and kms: "known_mixins h0 ms"
    using Cons.prems(2) by (simp_all add: known_mixins_def)
  have d0: "js_get h0 m ''__methods__'' = Inr d"
    using d old_js_get [OF tk km(1) assms(2)] by simp
  then have desc: "descriptor_of h0 m = VRef r"
    using r by (simp add: descriptor_of_def)
  then have r0: "r < length h0" using km(2) by (simp add: known_def)
  have keys: "own_enumerable h r = own_enumerable h0 r"
    using tk r0 by (rule old_own_enumerable)
  have m_of: "methods_of h0 m = map (\<lambda>k. (k, prop_value (get_prop h0 r k))) (own_enumerable h0 r)"
    using desc by (simp add: methods_of_def)
  have e1: "ext_state h0 cls methods cp h1"
    using apply_keys_inv [OF Cons.prems(1) k] by simp
  have one: "own_prop h1 cp k =
     (if k \<in> set (own_enumerable h0 r)
      then Some (data_prop (prop_value (get_prop h0 r k)) False False True)
      else own_prop h cp k)"
    using apply_keys_old [OF Cons.prems(1) r0 k, of k] keys by simp
  have split: "map_of (rev (merged_methods h0 (m # ms))) k =
     (case map_of (rev (merged_methods h0 ms)) k of
        Some v \<Rightarrow> Some v
      | None \<Rightarrow> map_of (rev (methods_of h0 m)) k)"
    by (simp add: merged_methods_def map_add_def)
  have "map_of (rev (methods_of h0 m)) k =
     (if k \<in> set (own_enumerable h0 r) then Some (prop_value (get_prop h0 r k)) else None)"
    unfolding m_of by (rule map_of_rev_keyed)
  with Cons.IH [OF e1 kms rest] one split show ?case
    by (auto split: option.splits)
qed

text \<open>The run of \<^verbatim>\<open>extend\<close>, cut at the loop over the mixins.\<close>

lemma extend_run:
  assumes "this < length h" and "extend this mixins h = Inr (c, h')"
  shows "\<exists>h4 h5. c = VRef (length h)
     \<and> ext_state h (length h) (length h + 2) (length h + 3) h4
     \<and> length h4 = length h + 4
     \<and> proto_of h4 (length h + 3) =
         (case prop_value (get_prop h this ''prototype'') of VRef p \<Rightarrow> Some p | _ \<Rightarrow> None)
     \<and> own_props h4 (length h + 3) = []
     \<and> own_props h4 (length h + 2) = []
     \<and> own_props h4 (length h) = [(''prototype'', data_prop (VRef (length h + 3)) True False False)]
     \<and> code_of h4 (length h) = Some ClassCode
     \<and> apply_mixins (length h + 2) (length h) mixins h4 = Inr h5
     \<and> define_property
          (put h5 (length h + 3) ''constructor''
             (if truthy (prop_value (get_prop h5 (length h + 3) ''init''))
              then prop_value (get_prop h5 (length h + 3) ''init'') else VRef (length h)))
          (length h) ''__methods__'' (methods_descriptor (length h + 2)) = Inr h'"
proof -
  define n where "n = length h"
  define fobj where "fobj = \<lparr>proto = Some function_prototype,
      props = [(''prototype'', data_prop (VRef (Suc n)) True False False)], code = Some ClassCode\<rparr>"
  define pobj where "pobj = \<lparr>proto = Some object_prototype,
      props = [(''constructor'', data_prop (VRef n) True False True)], code = None\<rparr>"
  define h2 where "h2 = h @ [fobj, pobj, plain_object]"
  have nf: "new_function h ClassCode = (n, h @ [fobj, pobj])"
    by (simp add: new_function_def Let_def n_def fobj_def pobj_def)
  define ms where "ms = n + 2"
  have al: "alloc (h @ [fobj, pobj]) plain_object = (ms, h2)"
    by (simp add: alloc_def n_def h2_def ms_def)
  define pv where "pv = prop_value (get_prop h this ''prototype'')"
  have pv2: "prop_value (get_prop h2 this ''prototype'') = pv"
    using assms(1) by (simp add: h2_def pv_def)
  define cpobj where "cpobj = \<lparr>proto = (case pv of VRef p \<Rightarrow> Some p | _ \<Rightarrow> None),
      props = [], code = None\<rparr>"
  define h3 where "h3 = h2 @ [cpobj]"
  have ext: "extend this mixins h =
      (case object_create h2 pv of
         Inl e \<Rightarrow> Inl e
       | Inr (cp, h3) \<Rightarrow>
           (let h4 = put h3 n ''prototype'' (VRef cp)
            in case apply_mixins ms n mixins h4 of
                 Inl e \<Rightarrow> Inl e
               | Inr h5 \<Rightarrow>
                   (let pv = prop_value (get_prop h5 n ''prototype'')
                    in case js_get h5 pv ''init'' of
                         Inl e \<Rightarrow> Inl e
                       | Inr init \<Rightarrow>
                           (case put_val h5 pv ''constructor''
                                   (if truthy init then init else VRef n) of
                              Inl e \<Rightarrow> Inl e
                            | Inr h6 \<Rightarrow>
                                (case define_property h6 n ''__methods__''
                                        (methods_descriptor ms) of
                                   Inl e \<Rightarrow> Inl e
                                 | Inr h7 \<Rightarrow> Inr (VRef n, h7))))))"
    by (simp add: extend_def nf al pv2)
  have oc: "object_create h2 pv = Inr (n + 3, h3)"
    using assms(2) unfolding ext
    by (cases pv) (auto simp: alloc_def h3_def cpobj_def h2_def n_def)
  define h4 where "h4 = put h3 n ''prototype'' (VRef (n + 3))"
  have len3: "length h3 = n + 4" by (simp add: h3_def h2_def n_def)
  have own3: "own_props h3 n = [(''prototype'', data_prop (VRef (Suc n)) True False False)]"
    by (simp add: own_props_def h3_def h2_def n_def fobj_def nth_append)
  then have "own_prop h3 n ''prototype'' = Some (data_prop (VRef (Suc n)) True False False)"
    by (simp add: own_prop_def)
  then have cp4: "can_put h3 n ''prototype''"
    by (simp add: can_put_def data_prop_def)
  have h4': "h4 = set_own h3 n ''prototype'' (data_prop (VRef (n + 3)) True False False)"
    using cp4 \<open>own_prop h3 n ''prototype'' = Some (data_prop (VRef (Suc n)) True False False)\<close>
    by (simp add: h4_def put_def data_prop_def)
  have own4: "own_props h4 n = [(''prototype'', data_prop (VRef (n + 3)) True False False)]"
    using own3 len3 by (simp add: h4' own_props_set_own)
  have other4: "\<And>q. q \<noteq> n \<Longrightarrow> own_props h4 q = own_props h3 q"
    by (simp add: h4' own_props_set_own)
  have o_cp: "own_props h4 (n + 3) = []"
    using other4 [of "n + 3"] by (simp add: own_props_def h3_def h2_def n_def cpobj_def nth_append)
  have o_m: "own_props h4 (n + 2) = []"
    using other4 [of "n + 2"]
    by (simp add: own_props_def h3_def h2_def n_def plain_object_def nth_append)
  have tk: "take (length h) h4 = h"
    by (simp add: h4' take_set_own n_def h3_def h2_def)
  have es: "ext_state h n (n + 2) (n + 3) h4"
    unfolding ext_state_def
    using tk len3 own4 o_cp by (simp add: n_def h4_def own_prop_def data_prop_def)
  have "proto_of h3 (n + 3) = (case pv of VRef p \<Rightarrow> Some p | _ \<Rightarrow> None)"
    by (simp add: proto_of_def h3_def h2_def n_def cpobj_def nth_append)
  then have pr4: "proto_of h4 (n + 3) = (case pv of VRef p \<Rightarrow> Some p | _ \<Rightarrow> None)"
    by (simp add: h4_def)
  have "code_of h3 n = Some ClassCode"
    by (simp add: code_of_def h3_def h2_def n_def fobj_def nth_append)
  then have code4: "code_of h4 n = Some ClassCode"
    by (simp add: h4_def)
  from assms(2) obtain h5 where am: "apply_mixins (n + 2) n mixins h4 = Inr h5"
    unfolding ext by (auto simp: oc h4_def ms_def Let_def split: sum.splits)
  have es5: "ext_state h n (n + 2) (n + 3) h5"
    using apply_mixins_inv [OF es am] by simp
  have pv5: "prop_value (get_prop h5 n ''prototype'') = VRef (n + 3)"
    using es5 by (rule ext_state_prototype)
  have fin: "c = VRef n \<and> define_property
          (put h5 (n + 3) ''constructor''
             (if truthy (prop_value (get_prop h5 (n + 3) ''init''))
              then prop_value (get_prop h5 (n + 3) ''init'') else VRef n))
          n ''__methods__'' (methods_descriptor (n + 2)) = Inr h'"
    using assms(2) am pv5 unfolding ext
    by (auto simp: oc h4_def [symmetric] ms_def Let_def split: sum.splits)
  show ?thesis
    unfolding n_def [symmetric]
    apply (rule exI [of _ h4], rule exI [of _ h5])
    using fin es len3 pr4 o_cp o_m own4 code4 am by (simp add: pv_def h4_def)
qed

text \<open>The store that \<^verbatim>\<open>extend\<close> returns, in terms of the store after the loop.\<close>

lemma extend_result:
  assumes "this < length h" and "extend this mixins h = Inr (c, h')"
  shows "\<exists>h5. c = VRef (length h)
     \<and> ext_state h (length h) (length h + 2) (length h + 3) h5
     \<and> length h5 = length h + 4
     \<and> proto_of h5 (length h + 3) =
         (case prop_value (get_prop h this ''prototype'') of VRef p \<Rightarrow> Some p | _ \<Rightarrow> None)
     \<and> code_of h5 (length h) = Some ClassCode
     \<and> own_props h5 (length h) = [(''prototype'', data_prop (VRef (length h + 3)) True False False)]
     \<and> (known_mixins h mixins \<longrightarrow> object_prototype < length h \<longrightarrow>
          (\<forall>k. own_prop h5 (length h + 3) k =
             (case map_of (rev (merged_methods h mixins)) k of
                Some v \<Rightarrow> Some (data_prop v False False True)
              | None \<Rightarrow> None)))
     \<and> h' = set_own
          (put h5 (length h + 3) ''constructor''
             (if truthy (prop_value (get_prop h5 (length h + 3) ''init''))
              then prop_value (get_prop h5 (length h + 3) ''init'') else VRef (length h)))
          (length h) ''__methods__'' (data_prop (VRef (length h + 2)) False False False)"
proof -
  define n where "n = length h"
  from extend_run [OF assms] obtain h4 h5 where
    c: "c = VRef n"
    and es4: "ext_state h n (n + 2) (n + 3) h4"
    and len4: "length h4 = n + 4"
    and pr4: "proto_of h4 (n + 3) =
         (case prop_value (get_prop h this ''prototype'') of VRef p \<Rightarrow> Some p | _ \<Rightarrow> None)"
    and ocp4: "own_props h4 (n + 3) = []"
    and ocl4: "own_props h4 n = [(''prototype'', data_prop (VRef (n + 3)) True False False)]"
    and code4: "code_of h4 n = Some ClassCode"
    and am: "apply_mixins (n + 2) n mixins h4 = Inr h5"
    and dp: "define_property
          (put h5 (n + 3) ''constructor''
             (if truthy (prop_value (get_prop h5 (n + 3) ''init''))
              then prop_value (get_prop h5 (n + 3) ''init'') else VRef n))
          n ''__methods__'' (methods_descriptor (n + 2)) = Inr h'"
    unfolding n_def by blast
  note inv = apply_mixins_inv [OF es4 am]
  have es5: "ext_state h n (n + 2) (n + 3) h5" using inv by simp
  have len5: "length h5 = n + 4" using inv len4 by simp
  have pr5: "proto_of h5 (n + 3) =
         (case prop_value (get_prop h this ''prototype'') of VRef p \<Rightarrow> Some p | _ \<Rightarrow> None)"
    using inv pr4 by simp
  have code5: "code_of h5 n = Some ClassCode" using inv code4 by simp
  have ocl5: "own_props h5 n = [(''prototype'', data_prop (VRef (n + 3)) True False False)]"
    using inv ocl4 by simp
  have formula: "known_mixins h mixins \<longrightarrow> object_prototype < n \<longrightarrow>
          (\<forall>k. own_prop h5 (n + 3) k =
             (case map_of (rev (merged_methods h mixins)) k of
                Some v \<Rightarrow> Some (data_prop v False False True)
              | None \<Rightarrow> None))"
  proof (intro impI allI)
    fix k assume km: "known_mixins h mixins" and "object_prototype < n"
    then have op: "object_prototype < length h" by (simp add: n_def)
    have "own_prop h4 (n + 3) k = None" using ocp4 by (simp add: own_prop_def)
    then show "own_prop h5 (n + 3) k =
             (case map_of (rev (merged_methods h mixins)) k of
                Some v \<Rightarrow> Some (data_prop v False False True)
              | None \<Rightarrow> None)"
      using apply_mixins_old [OF es4 op km am, of k] by (simp split: option.splits)
  qed
  define h6 where "h6 = put h5 (n + 3) ''constructor''
             (if truthy (prop_value (get_prop h5 (n + 3) ''init''))
              then prop_value (get_prop h5 (n + 3) ''init'') else VRef n)"
  have "own_props h6 n = own_props h5 n"
    unfolding h6_def by (rule own_props_put_other) simp
  then have "own_prop h6 n ''__methods__'' = None"
    using ocl5 by (simp add: own_prop_def)
  then have "h' = set_own h6 n ''__methods__'' (data_prop (VRef (n + 2)) False False False)"
    using dp unfolding h6_def [symmetric]
    by (simp add: define_property_def methods_descriptor_def or_default_def)
  then show ?thesis
    unfolding n_def [symmetric]
    apply (intro exI [of _ h5])
    using c es5 len5 pr5 code5 ocl5 formula by (simp add: h6_def)
qed

section \<open>The bind fallback\<close>





section \<open>The class utility\<close>

text \<open>
  The \<^verbatim>\<open>_super\<close> closure itself: where the lookup of \<^verbatim>\<open>_super\<close> on an object finds the
  closure, calling it with a class \<open>A\<close>, the name \<open>m\<close> of a method that the prototype of \<open>A\<close>
  defines, and arguments, is the call of that function with the object as receiver.
\<close>

lemma super_call:
  assumes "js_get h (VRef inst) ''_super'' = Inr (VRef sf)"
    and "code_of h sf = Some SuperCode"
    and "js_get h (VRef A) ''prototype'' = Inr (VRef pa)"
    and "own_prop h pa m = Some p"
    and "pvalue p = VRef f"
  shows "call_method (host_call (Suc n) U) (VRef inst) ''_super'' (VRef A # VStr m # args) h
         = host_call n U f (VRef inst) args h"
proof -
  have "get_prop h pa m = Some p"
    using assms(4) by (simp add: get_prop.simps [of h pa])
  then have "js_get h (VRef pa) m = Inr (VRef f)"
    using assms(5) by (simp add: prop_value_def)
  then show ?thesis
    using assms(1,2,3) by (simp add: call_method_def super_def arg_def)
qed

text \<open>
  C1. Calling the \<^verbatim>\<open>_super\<close> helper of an instance with an ancestor class and the name of
  a method of its prototype should run that method on the instance. For
  \<^verbatim>\<open>S2 = Person.extend({ _super : u })\<close> and \<^verbatim>\<open>s = new S2(true)\<close> it does not: line 244
  defined the method \<^verbatim>\<open>_super\<close> of the mixin without \<^verbatim>\<open>writable\<close>, so the assignment
  \<^verbatim>\<open>this._super = ...\<close> of line 222 is rejected and \<open>s\<close> has no helper. The prototype of
  \<^verbatim>\<open>Person\<close> (object 21) defines \<^verbatim>\<open>dance\<close> (object 15), which called on \<open>s\<close> returns
  \<^verbatim>\<open>true\<close>; \<^verbatim>\<open>s._super(Person, "dance")\<close> runs \<open>u\<close> instead and returns \<^verbatim>\<open>"other"\<close>.
\<close>

theorem super_dispatch_lost:
  "the_val (js_new demo_call (VRef 25) [VBool True] demo_shadow_person) = VRef 29
   \<and> js_get demo_shadow_person_instance (VRef 18) ''prototype'' = Inr (VRef 21)
   \<and> own_prop demo_shadow_person_instance 21 ''dance''
       = Some (data_prop (VRef 15) False False True)
   \<and> the_val (demo_call 15 (VRef 29) [] demo_shadow_person_instance) = VBool True
   \<and> the_val (call_method demo_call (VRef 29) ''_super'' [VRef 18, VStr ''dance'']
                 demo_shadow_person_instance) = VStr ''other''"
proof -
  have "let r = js_new demo_call (VRef 25) [VBool True] demo_shadow_person
        in the_val r = VRef 29
         \<and> js_get (the_heap r) (VRef 18) ''prototype'' = Inr (VRef 21)
         \<and> own_prop (the_heap r) 21 ''dance'' = Some (data_prop (VRef 15) False False True)
         \<and> the_val (demo_call 15 (VRef 29) [] (the_heap r)) = VBool True
         \<and> the_val (call_method demo_call (VRef 29) ''_super'' [VRef 18, VStr ''dance'']
                       (the_heap r)) = VStr ''other''"
    by code_simp
  then show ?thesis
    by (simp add: Let_def demo_shadow_person_instance_def)
qed

text \<open>The class that \<^verbatim>\<open>extend\<close> returns, and the old objects.\<close>

lemma extend_new_objects:
  assumes "this < length h" and "extend this mixins h = Inr (c, h')"
  shows "take (length h) h' = h
     \<and> c = VRef (length h)
     \<and> own_prop h' (length h) ''prototype'' = Some (data_prop (VRef (length h + 3)) True False False)
     \<and> own_prop h' (length h) ''__methods__'' = Some (data_prop (VRef (length h + 2)) False False False)"
proof -
  from extend_result [OF assms] obtain h5 where
    c: "c = VRef (length h)"
    and es: "ext_state h (length h) (length h + 2) (length h + 3) h5"
    and len: "length h5 = length h + 4"
    and ocl: "own_props h5 (length h) = [(''prototype'', data_prop (VRef (length h + 3)) True False False)]"
    and h': "h' = set_own
          (put h5 (length h + 3) ''constructor''
             (if truthy (prop_value (get_prop h5 (length h + 3) ''init''))
              then prop_value (get_prop h5 (length h + 3) ''init'') else VRef (length h)))
          (length h) ''__methods__'' (data_prop (VRef (length h + 2)) False False False)"
    by blast
  have tk: "take (length h) h' = h"
    unfolding h' using ext_state_take [OF es] by (simp add: take_set_own take_put)
  have "own_prop h5 (length h) ''prototype'' = Some (data_prop (VRef (length h + 3)) True False False)"
    using ocl by (simp add: own_prop_def)
  then have p: "own_prop h' (length h) ''prototype'' = Some (data_prop (VRef (length h + 3)) True False False)"
    unfolding h' by (simp add: own_prop_set_own own_prop_put_other)
  have m: "own_prop h' (length h) ''__methods__'' = Some (data_prop (VRef (length h + 2)) False False False)"
    unfolding h' using len by (simp add: own_prop_set_own)
  show ?thesis using tk c p m by simp
qed

lemma extend_own_props:
  assumes "this < length h" and "known_mixins h mixins"
    and "extend this mixins h = Inr (c, h')"
  shows "later_wins (merged_methods h mixins) k = Some v
           \<Longrightarrow> own_prop h' (length h + 3) k = Some (data_prop v False False True)"
    and "later_wins (merged_methods h mixins) k = None \<Longrightarrow> k \<noteq> ''constructor''
           \<Longrightarrow> own_prop h' (length h + 3) k = None"
proof -
  have op: "object_prototype < length h"
    using assms(1) by (cases h) (simp_all add: object_prototype_def)
  from extend_result [OF assms(1,3)] assms(2) op obtain h5 where
    f: "\<And>k. own_prop h5 (length h + 3) k =
             (case map_of (rev (merged_methods h mixins)) k of
                Some v \<Rightarrow> Some (data_prop v False False True)
              | None \<Rightarrow> None)"
    and h': "h' = set_own
          (put h5 (length h + 3) ''constructor''
             (if truthy (prop_value (get_prop h5 (length h + 3) ''init''))
              then prop_value (get_prop h5 (length h + 3) ''init'') else VRef (length h)))
          (length h) ''__methods__'' (data_prop (VRef (length h + 2)) False False False)"
    by blast
  {
    assume lw: "later_wins (merged_methods h mixins) k = Some v"
    then have o5: "own_prop h5 (length h + 3) k = Some (data_prop v False False True)"
      using f [of k] by (simp add: later_wins_def)
    have "own_prop (put h5 (length h + 3) ''constructor'' x) (length h + 3) k
          = Some (data_prop v False False True)" for x
    proof (cases "k = ''constructor''")
      case True
      then have "\<not> can_put h5 (length h + 3) ''constructor''"
        using o5 by (simp add: can_put_def data_prop_def)
      then show ?thesis using o5 by (simp add: put_def)
    next
      case False
      then show ?thesis using o5 by (simp add: own_prop_put_other)
    qed
    then show "own_prop h' (length h + 3) k = Some (data_prop v False False True)"
      unfolding h' by (simp add: own_prop_set_own)
  }
  {
    assume lw: "later_wins (merged_methods h mixins) k = None" and k: "k \<noteq> ''constructor''"
    then have "own_prop h5 (length h + 3) k = None"
      using f [of k] by (simp add: later_wins_def)
    then show "own_prop h' (length h + 3) k = None"
      unfolding h' using k by (simp add: own_prop_set_own own_prop_put_other)
  }
qed

text \<open>
  C2. The prototype of the new class holds, under each name of the merged method set, the
  method of the last mixin in the order of the arguments that has the name, as an own
  property, so that it is found there before anything inherited; under another name,
  \<^verbatim>\<open>constructor\<close> apart, it holds nothing. The methods of a mixin are the own enumerable
  properties of its descriptor, as \<^verbatim>\<open>Object.keys\<close> lists them.
\<close>

theorem mixins_in_order:
  assumes "this < length h" and "known_mixins h mixins"
    and "extend this mixins h = Inr (c, h')"
  shows "js_get h' c ''prototype'' = Inr (VRef (length h + 3))
     \<and> (case later_wins (merged_methods h mixins) k of
          Some v \<Rightarrow>
            own_prop h' (length h + 3) k = Some (data_prop v False False True)
            \<and> js_get h' (VRef (length h + 3)) k = Inr v
        | None \<Rightarrow> k = ''constructor'' \<or> own_prop h' (length h + 3) k = None)"
proof -
  have c: "c = VRef (length h)"
    and p: "own_prop h' (length h) ''prototype'' = Some (data_prop (VRef (length h + 3)) True False False)"
    using extend_new_objects [OF assms(1,3)] by simp_all
  have 1: "js_get h' c ''prototype'' = Inr (VRef (length h + 3))"
    using get_prop_own [OF p] by (simp add: c prop_value_def data_prop_def)
  show ?thesis
  proof (cases "later_wins (merged_methods h mixins) k")
    case None
    then show ?thesis using 1 extend_own_props(2) [OF assms, of k] by (cases "k = ''constructor''") simp_all
  next
    case (Some v)
    have o: "own_prop h' (length h + 3) k = Some (data_prop v False False True)"
      using extend_own_props(1) [OF assms Some] .
    then show ?thesis
      using 1 Some get_prop_own [OF o] by (simp add: prop_value_def data_prop_def)
  qed
qed

theorem mixins_in_order_witness:
  "later_wins (merged_methods demo_pirate_before [VRef 29, VRef 35]) ''init'' = Some (VRef 33)
   \<and> merged_methods demo_pirate_before [VRef 29, VRef 35]
       = [(''init'', VRef 22), (''dance'', VRef 24), (''swingSword'', VRef 26), (''init'', VRef 33)]
   \<and> js_get (the_heap (extend 18 [VRef 29, VRef 35] demo_pirate_before)) (VRef 39) ''init''
       = Inr (VRef 33)"
proof -
  define r where "r = extend 18 [VRef 29, VRef 35] demo_pirate_before"
  have e: "let h = demo_pirate_before; r = extend 18 [VRef 29, VRef 35] h
        in 18 < length h \<and> length h = 36 \<and> known_mixins h [VRef 29, VRef 35]
         \<and> \<not> isl r \<and> the_val r = VRef 36
         \<and> later_wins (merged_methods h [VRef 29, VRef 35]) ''init'' = Some (VRef 33)
         \<and> merged_methods h [VRef 29, VRef 35]
             = [(''init'', VRef 22), (''dance'', VRef 24), (''swingSword'', VRef 26),
                (''init'', VRef 33)]"
    by code_simp
  then have "\<not> isl r" and "the_val r = VRef 36"
    unfolding Let_def r_def by blast+
  then have run: "extend 18 [VRef 29, VRef 35] demo_pirate_before = Inr (VRef 36, the_heap r)"
    using outcome_collapse [of r] by (simp add: r_def)
  from e [unfolded Let_def] have 1: "18 < length demo_pirate_before"
    and 2: "known_mixins demo_pirate_before [VRef 29, VRef 35]"
    by blast+
  from e [unfolded Let_def] have lw: "later_wins (merged_methods demo_pirate_before [VRef 29, VRef 35]) ''init''
      = Some (VRef 33)"
    and mm: "merged_methods demo_pirate_before [VRef 29, VRef 35]
       = [(''init'', VRef 22), (''dance'', VRef 24), (''swingSword'', VRef 26), (''init'', VRef 33)]"
    and len: "length demo_pirate_before = 36"
    by blast+
  have "js_get (the_heap r) (VRef (length demo_pirate_before + 3)) ''init'' = Inr (VRef 33)"
    using mixins_in_order [OF 1 2 run, of "''init''"] unfolding lw by simp
  then have "js_get (the_heap r) (VRef 39) ''init'' = Inr (VRef 33)"
    unfolding len by simp
  then show ?thesis
    using lw mm unfolding r_def by blast
qed

text \<open>The instance that \<^verbatim>\<open>new\<close> allocates.\<close>

lemma construct_instance:
  assumes "prop_value (get_prop h c ''prototype'') = VRef cp"
  shows "construct_object h c = (length h, h @ [instance_object cp])"
  using assms by (simp add: construct_object_def alloc_def instance_object_def)

text \<open>The new instance when \<^verbatim>\<open>Class\<close> has assigned \<^verbatim>\<open>this._super\<close>.\<close>

lemma instance_with_super:
  assumes "cp < length h"
  defines "h2 \<equiv> install_super (h @ [instance_object cp]) (length h)"
  shows "own_prop h2 (length h) ''_super'' =
           (if assignable (get_prop h cp ''_super'')
            then Some (data_prop (VRef (Suc (length h))) True True True) else None)"
    and "m \<noteq> ''_super'' \<Longrightarrow> get_prop h2 (length h) m = get_prop h cp m"
    and "get_prop h2 cp m = get_prop h cp m"
    and "code_of h2 (Suc (length h)) = Some SuperCode"
    and "q < length h \<Longrightarrow> code_of h2 q = code_of h q"
    and "take (length h) h2 = h"
    and "proto_of h2 (length h) = Some cp"
proof -
  define ob where "ob = length h"
  define h1 where "h1 = h @ [instance_object cp]"
  obtain sf h1' where nf: "new_function h1 SuperCode = (sf, h1')"
    by (cases "new_function h1 SuperCode")
  note F = new_function_facts [OF nf]
  have sf: "sf = Suc ob" using F(1) by (simp add: h1_def ob_def)
  have h1': "h1' = h1 @ drop (length h1) h1'" by (rule F(3))
  have h2: "h2 = put h1' ob ''_super'' (VRef sf)"
    using nf by (simp add: h2_def install_super_def h1_def ob_def)
  have ob1: "ob < length h1" by (simp add: h1_def ob_def)
  have props1: "own_props h1 ob = []" and proto1: "proto_of h1 ob = Some cp"
    by (simp_all add: h1_def ob_def own_props_def proto_of_def instance_object_def)
  have props1': "own_props h1' ob = []" and proto1': "proto_of h1' ob = Some cp"
    using props1 proto1 ob1 h1' by (metis own_props_append, metis proto_of_append)
  have cp_ob: "cp < ob" using assms(1) by (simp add: ob_def)
  have old1: "get_prop h1' cp k = get_prop h cp k" for k
  proof -
    have "cp < length h1" using assms(1) by (simp add: h1_def)
    then have "get_prop h1' cp k = get_prop h1 cp k"
      using h1' by (metis get_prop_append)
    then show ?thesis using assms(1) by (simp add: h1_def)
  qed
  have own_none: "own_prop h1' ob k = None" for k
    using props1' by (simp add: own_prop_def)
  have inh: "inherited_prop h1' ob k = get_prop h cp k" for k
    using proto1' cp_ob old1 by (simp add: inherited_prop_def)
  have can: "can_put h1' ob ''_super'' = assignable (get_prop h cp ''_super'')"
    by (simp add: can_put_def own_none inh assignable_def)
  have ob1': "ob < length h1'" using ob1 F(2) by simp
  show "own_prop h2 (length h) ''_super'' =
           (if assignable (get_prop h cp ''_super'')
            then Some (data_prop (VRef (Suc (length h))) True True True) else None)"
    using can own_none ob1' sf
    by (simp add: h2 put_def own_prop_set_own ob_def [symmetric])
  have below: "get_prop h2 cp k = get_prop h cp k" for k
  proof -
    have "get_prop h2 cp k = get_prop h1' cp k"
      unfolding h2
      by (rule get_prop_cong) (use cp_ob in \<open>simp add: own_prop_put_other\<close>)
    then show ?thesis using old1 by simp
  qed
  then show "get_prop h2 cp m = get_prop h cp m" .
  {
    assume m: "m \<noteq> ''_super''"
    have "own_prop h2 ob m = None"
      using m own_none by (simp add: h2 own_prop_put_other)
    moreover have "proto_of h2 ob = Some cp"
      using proto1' by (simp add: h2)
    ultimately show "get_prop h2 (length h) m = get_prop h cp m"
      using cp_ob below by (simp add: get_prop.simps [of h2 ob] ob_def [symmetric])
  }
  have "code_of h1' sf = Some SuperCode" by (rule F(4))
  then show "code_of h2 (Suc (length h)) = Some SuperCode"
    using sf by (simp add: h2 ob_def)
  {
    assume q: "q < length h"
    then have "q < length h1" by (simp add: h1_def)
    then have "code_of h1' q = code_of h1 q" using h1' by (metis code_of_append)
    then show "code_of h2 q = code_of h q" using q by (simp add: h2 h1_def)
  }
  have "take (length h) h1' = h"
    using h1' by (metis append.assoc append_eq_conv_conj h1_def)
  then show "take (length h) h2 = h"
    by (simp add: h2 take_put ob_def)
  show "proto_of h2 (length h) = Some cp"
    using proto1' by (simp add: h2 ob_def)
qed

text \<open>
  C10. \<^verbatim>\<open>extend\<close> called on a parent writes to new objects only: every object of the store
  at the call, so the parent, its prototype and its record of merged methods, is the same
  object afterwards. The prototype and the method record of the new class are the new
  objects 3 and 2 places after the class.
\<close>

theorem extend_frame:
  assumes "this < length h" and "extend this mixins h = Inr (c, h')"
  shows "take (length h) h' = h
     \<and> c = VRef (length h)
     \<and> own_prop h' (length h) ''prototype'' = Some (data_prop (VRef (length h + 3)) True False False)
     \<and> own_prop h' (length h) ''__methods__'' = Some (data_prop (VRef (length h + 2)) False False False)"
  using assms by (rule extend_new_objects)

theorem extend_frame_witness:
  "take 36 (the_heap (extend 18 [VRef 29, VRef 35] demo_pirate_before)) = demo_pirate_before
   \<and> own_prop (the_heap (extend 18 [VRef 29, VRef 35] demo_pirate_before)) 36 ''__methods__''
       = Some (data_prop (VRef 38) False False False)"
proof -
  define r where "r = extend 18 [VRef 29, VRef 35] demo_pirate_before"
  have e: "let h = demo_pirate_before; r = extend 18 [VRef 29, VRef 35] h
        in 18 < length h \<and> length h = 36 \<and> \<not> isl r \<and> the_val r = VRef 36"
    by code_simp
  then have "\<not> isl r" and "the_val r = VRef 36"
    unfolding Let_def r_def by blast+
  then have run: "extend 18 [VRef 29, VRef 35] demo_pirate_before = Inr (VRef 36, the_heap r)"
    using outcome_collapse [of r] by (simp add: r_def)
  from e [unfolded Let_def] have 1: "18 < length demo_pirate_before"
    and 2: "length demo_pirate_before = 36"
    by blast+
  show ?thesis
    using extend_frame [OF 1 run] 2 by (simp add: r_def)
qed

text \<open>\<^verbatim>\<open>new\<close> on a class: \<^verbatim>\<open>Class\<close> runs on the new instance.\<close>

lemma new_class_instance:
  assumes "code_of h c = Some ClassCode"
    and "prop_value (get_prop h c ''prototype'') = VRef cp"
    and "cp < length h"
  shows "js_new (host_call (Suc n) U) (VRef c) args h =
     (if truthy (prop_value (get_prop h cp ''init''))
      then (case call_val (host_call n U) (prop_value (get_prop h cp ''init'')) (VRef (length h)) args
                   (install_super (h @ [instance_object cp]) (length h)) of
              Inl e \<Rightarrow> Inl e
            | Inr (r, h3) \<Rightarrow> Inr (VRef (length h), h3))
      else Inr (VRef (length h), install_super (h @ [instance_object cp]) (length h)))"
proof -
  define h1 where "h1 = h @ [instance_object cp]"
  define h2 where "h2 = install_super h1 (length h)"
  have c: "c < length h"
    using assms(1) by (auto simp: code_of_def split: if_splits)
  have code1: "code_of h1 c = Some ClassCode"
    using assms(1) c by (simp add: h1_def)
  have init: "get_prop h2 (length h) ''init'' = get_prop h cp ''init''"
    unfolding h2_def h1_def by (rule instance_with_super(2) [OF assms(3)]) simp
  have cls: "host_call (Suc n) U c (VRef (length h)) args h1 =
     (if truthy (prop_value (get_prop h cp ''init''))
      then (case call_val (host_call n U) (prop_value (get_prop h cp ''init'')) (VRef (length h)) args h2 of
              Inl e \<Rightarrow> Inl e
            | Inr (r, h3) \<Rightarrow> Inr (VRef (length h), h3))
      else Inr (VRef (length h), h2))"
    using code1 init by (simp add: Class_def Let_def h2_def [symmetric])
  show ?thesis
    unfolding h1_def [symmetric] h2_def [symmetric]
    using assms(1) construct_instance [OF assms(2)] cls
    by (auto simp: js_new_def h1_def [symmetric] split: sum.splits prod.splits)
qed

text \<open>
  What \<^verbatim>\<open>new\<close> on a class leaves on the instance: \<^verbatim>\<open>Class\<close> assigns a new \<^verbatim>\<open>_super\<close>
  closure before it looks for \<^verbatim>\<open>init\<close>, and the instance owns it exactly when the
  prototype chain of the class has no \<^verbatim>\<open>_super\<close> or a writable one.
\<close>

lemma class_installs_super:
  assumes "code_of h c = Some ClassCode"
    and "prop_value (get_prop h c ''prototype'') = VRef cp"
    and "cp < length h"
  shows "construct_object h c = (length h, h @ [instance_object cp])
     \<and> code_of (install_super (h @ [instance_object cp]) (length h)) (Suc (length h))
         = Some SuperCode
     \<and> own_prop (install_super (h @ [instance_object cp]) (length h)) (length h) ''_super''
         = (if assignable (get_prop h cp ''_super'')
            then Some (data_prop (VRef (Suc (length h))) True True True) else None)
     \<and> js_get (install_super (h @ [instance_object cp]) (length h)) (VRef (length h)) ''_super''
         = (if assignable (get_prop h cp ''_super'')
            then Inr (VRef (Suc (length h))) else Inr (prop_value (get_prop h cp ''_super'')))
     \<and> js_new (host_call (Suc n) U) (VRef c) args h =
         (if truthy (prop_value (get_prop h cp ''init''))
          then (case call_val (host_call n U) (prop_value (get_prop h cp ''init''))
                       (VRef (length h)) args
                       (install_super (h @ [instance_object cp]) (length h)) of
                  Inl e \<Rightarrow> Inl e
                | Inr (r, h3) \<Rightarrow> Inr (VRef (length h), h3))
          else Inr (VRef (length h), install_super (h @ [instance_object cp]) (length h)))"
proof -
  define h2 where "h2 = install_super (h @ [instance_object cp]) (length h)"
  have own: "own_prop h2 (length h) ''_super''
         = (if assignable (get_prop h cp ''_super'')
            then Some (data_prop (VRef (Suc (length h))) True True True) else None)"
    unfolding h2_def by (rule instance_with_super(1) [OF assms(3)])
  have below: "get_prop h2 cp ''_super'' = get_prop h cp ''_super''"
    unfolding h2_def by (rule instance_with_super(3) [OF assms(3)])
  have link: "proto_of h2 (length h) = Some cp"
    unfolding h2_def by (rule instance_with_super(7) [OF assms(3)])
  have get: "js_get h2 (VRef (length h)) ''_super''
         = (if assignable (get_prop h cp ''_super'')
            then Inr (VRef (Suc (length h))) else Inr (prop_value (get_prop h cp ''_super'')))"
    using own link below assms(3)
    by (simp add: get_prop.simps [of h2 "length h"] prop_value_def data_prop_def)
  show ?thesis
    using own get construct_instance [OF assms(2)] instance_with_super(4) [OF assms(3)]
      new_class_instance [OF assms(1,2,3)]
    unfolding h2_def by simp
qed

text \<open>
  C9. Every construction should leave the \<^verbatim>\<open>_super\<close> helper as an own property of the
  instance, shadowing any \<^verbatim>\<open>_super\<close> further up the chain. For
  \<^verbatim>\<open>S = Object.extend({ _super : u })\<close> and \<^verbatim>\<open>new S()\<close> it does not: line 244 defined the
  method of the mixin without \<^verbatim>\<open>writable\<close>, the assignment of line 222 is rejected, the
  instance (object 20) owns no \<^verbatim>\<open>_super\<close>, and the lookup finds the function \<open>u\<close> of the
  mixin (object 13), which is not the helper.
\<close>

theorem super_not_installed:
  "the_val (js_new demo_call (VRef 16) [] demo_shadow) = VRef 20
   \<and> own_prop demo_shadow_instance 20 ''_super'' = None
   \<and> js_get demo_shadow_instance (VRef 20) ''_super'' = Inr (VRef 13)
   \<and> code_of demo_shadow_instance 13 = Some (UserCode 7)"
proof -
  have "let r = js_new demo_call (VRef 16) [] demo_shadow
        in the_val r = VRef 20
         \<and> own_prop (the_heap r) 20 ''_super'' = None
         \<and> js_get (the_heap r) (VRef 20) ''_super'' = Inr (VRef 13)
         \<and> code_of (the_heap r) 13 = Some (UserCode 7)"
    by code_simp
  then show ?thesis
    by (simp add: Let_def demo_shadow_instance_def)
qed

text \<open>The prototype of the new class after the run: its link, and what it inherits.\<close>

lemma extend_prototype:
  assumes "this < length h" and "extend this mixins h = Inr (c, h')"
    and "prop_value (get_prop h this ''prototype'') = VRef pp" and "pp < length h"
  shows "proto_of h' (length h + 3) = Some pp"
    and "length h' = length h + 4"
    and "code_of h' (length h) = Some ClassCode"
    and "get_prop h' (length h + 3) m =
           (case own_prop h' (length h + 3) m of Some p \<Rightarrow> Some p | None \<Rightarrow> get_prop h pp m)"
proof -
  from extend_result [OF assms(1,2)] obtain h5 where
    len: "length h5 = length h + 4"
    and pr: "proto_of h5 (length h + 3) = Some pp"
    and code: "code_of h5 (length h) = Some ClassCode"
    and h': "h' = set_own
          (put h5 (length h + 3) ''constructor''
             (if truthy (prop_value (get_prop h5 (length h + 3) ''init''))
              then prop_value (get_prop h5 (length h + 3) ''init'') else VRef (length h)))
          (length h) ''__methods__'' (data_prop (VRef (length h + 2)) False False False)"
    using assms(3) by auto
  show p: "proto_of h' (length h + 3) = Some pp" using pr by (simp add: h')
  show "length h' = length h + 4" using len by (simp add: h')
  show "code_of h' (length h) = Some ClassCode" using code by (simp add: h')
  have tk: "take (length h) h' = h"
    using extend_new_objects [OF assms(1,2)] by simp
  have "get_prop h' pp m = get_prop h pp m"
    using tk assms(4) by (rule old_get_prop)
  then show "get_prop h' (length h + 3) m =
           (case own_prop h' (length h + 3) m of Some p \<Rightarrow> Some p | None \<Rightarrow> get_prop h pp m)"
    using p assms(4) by (simp add: get_prop.simps [of h' "length h + 3"] split: option.splits)
qed

text \<open>
  C4. The \<^verbatim>\<open>prototype\<close> of the class that \<^verbatim>\<open>extend\<close> returns is a new object whose
  prototype link is the prototype of the parent, and \<^verbatim>\<open>new\<close> gives an instance whose link
  is that new object. A lookup on the new prototype finds its own property, else what the
  parent's prototype gives; a lookup on the instance, in the store that \<^verbatim>\<open>init\<close> receives,
  finds what the new prototype gives (only \<^verbatim>\<open>_super\<close> can be the instance's own). So for a
  class built without mixins a name resolves to the parent's method; the two names that the
  utility itself defines on the child, \<^verbatim>\<open>constructor\<close> and \<^verbatim>\<open>_super\<close>, are set apart.
\<close>

theorem extend_prototype_chain:
  assumes "this < length h" and "extend this mixins h = Inr (c, h')"
    and "prop_value (get_prop h this ''prototype'') = VRef pp" and "pp < length h"
  shows "js_get h' c ''prototype'' = Inr (VRef (length h + 3))
     \<and> proto_of h' (length h + 3) = Some pp
     \<and> construct_object h' (length h) = (length h + 4, h' @ [instance_object (length h + 3)])
     \<and> get_prop h' (length h + 3) m =
         (case own_prop h' (length h + 3) m of Some p \<Rightarrow> Some p | None \<Rightarrow> get_prop h pp m)
     \<and> (m \<noteq> ''_super'' \<longrightarrow>
          get_prop (install_super (h' @ [instance_object (length h + 3)]) (length h + 4))
            (length h + 4) m = get_prop h' (length h + 3) m)
     \<and> (mixins = [] \<longrightarrow> m \<noteq> ''_super'' \<longrightarrow> m \<noteq> ''constructor'' \<longrightarrow>
          get_prop (install_super (h' @ [instance_object (length h + 3)]) (length h + 4))
            (length h + 4) m = get_prop h pp m)"
proof -
  note P = extend_prototype [OF assms]
  have c: "c = VRef (length h)"
    and p: "own_prop h' (length h) ''prototype'' = Some (data_prop (VRef (length h + 3)) True False False)"
    using extend_new_objects [OF assms(1,2)] by simp_all
  have pv: "prop_value (get_prop h' (length h) ''prototype'') = VRef (length h + 3)"
    using get_prop_own [OF p] by (simp add: prop_value_def data_prop_def)
  then have 1: "js_get h' c ''prototype'' = Inr (VRef (length h + 3))"
    by (simp add: c)
  have 3: "construct_object h' (length h) = (length h + 4, h' @ [instance_object (length h + 3)])"
    using construct_instance [OF pv] P(2) by simp
  have cp: "length h + 3 < length h'" using P(2) by simp
  have 5: "m \<noteq> ''_super'' \<Longrightarrow>
          get_prop (install_super (h' @ [instance_object (length h + 3)]) (length h + 4))
            (length h + 4) m = get_prop h' (length h + 3) m"
    using instance_with_super(2) [OF cp, of m] P(2) by simp
  have 6: "get_prop (install_super (h' @ [instance_object (length h + 3)]) (length h + 4))
            (length h + 4) m = get_prop h pp m"
    if "mixins = []" and "m \<noteq> ''_super''" and "m \<noteq> ''constructor''"
  proof -
    have "known_mixins h mixins" using that(1) by (simp add: known_mixins_def)
    moreover have "later_wins (merged_methods h mixins) m = None"
      using that(1) by (simp add: later_wins_def merged_methods_def)
    ultimately have "own_prop h' (length h + 3) m = None"
      using extend_own_props(2) [OF assms(1) _ assms(2)] that(3) by simp
    then show ?thesis using 5 [OF that(2)] P(4) [of m] by simp
  qed
  show ?thesis using 1 P(1) 3 P(4) 5 6 by blast
qed

theorem extend_prototype_chain_witness:
  "proto_of (the_heap (extend 18 [] demo_person)) 25 = Some 21
   \<and> get_prop (install_super (the_heap (extend 18 [] demo_person) @ [instance_object 25]) 26)
        26 ''dance''
      = get_prop demo_person 21 ''dance''
   \<and> get_prop demo_person 21 ''dance'' = Some (data_prop (VRef 15) False False True)"
proof -
  define r where "r = extend 18 [] demo_person"
  have e: "let h = demo_person; r = extend 18 [] h
        in 18 < length h \<and> length h = 22 \<and> \<not> isl r \<and> the_val r = VRef 22
         \<and> prop_value (get_prop h 18 ''prototype'') = VRef 21 \<and> 21 < length h
         \<and> get_prop h 21 ''dance'' = Some (data_prop (VRef 15) False False True)"
    by code_simp
  then have "\<not> isl r" and "the_val r = VRef 22"
    unfolding Let_def r_def by blast+
  then have run: "extend 18 [] demo_person = Inr (VRef 22, the_heap r)"
    using outcome_collapse [of r] by (simp add: r_def)
  from e [unfolded Let_def] have 1: "18 < length demo_person"
    and len: "length demo_person = 22"
    and 3: "prop_value (get_prop demo_person 18 ''prototype'') = VRef 21"
    and 4: "21 < length demo_person"
    and 5: "get_prop demo_person 21 ''dance'' = Some (data_prop (VRef 15) False False True)"
    by blast+
  note T = extend_prototype_chain [OF 1 run 3 4, of "''dance''", unfolded len]
  have a: "proto_of (the_heap r) 25 = Some 21"
    using T by (simp only: numeral_plus_numeral arith_simps)
  from T have "([] :: val list) = [] \<longrightarrow> ''dance'' \<noteq> ''_super'' \<longrightarrow> ''dance'' \<noteq> ''constructor'' \<longrightarrow>
      get_prop (install_super (the_heap r @ [instance_object (22 + 3)]) (22 + 4)) (22 + 4) ''dance''
      = get_prop demo_person 21 ''dance''"
    by blast
  then have b: "get_prop (install_super (the_heap r @ [instance_object 25]) 26) 26 ''dance''
      = get_prop demo_person 21 ''dance''"
    by simp
  show ?thesis
    using a b 5 unfolding r_def by blast
qed




section \<open>mixin\<close>

lemma put_same: "own_prop h r k = Some p \<Longrightarrow> put h r k (pvalue p) = h"
proof -
  assume own: "own_prop h r k = Some p"
  then have r: "r < length h" and m: "map_of (props (h ! r)) k = Some p"
    by (auto simp: own_prop_def own_props_def split: if_splits)
  have "AList.update k p (props (h ! r)) = props (h ! r)"
    using m by (rule update_triv)
  then have "set_own h r k p = h"
    using r by (simp add: set_own_def)
  then show ?thesis
    using own by (simp add: put_def)
qed

lemma own_enumerable_own: "k \<in> set (own_enumerable h r) \<Longrightarrow> own_prop h r k \<noteq> None"
  by (auto simp: own_enumerable_def own_prop_def weak_map_of_SomeI)

lemma for_in_names_own:
  "filter (\<lambda>k. own_prop h r k \<noteq> None) (for_in_names h r) = own_enumerable h r"
proof -
  have "filter (\<lambda>k. own_prop h r k \<noteq> None) (own_enumerable h r) = own_enumerable h r"
    using own_enumerable_own [of _ h r] by (simp add: filter_id_conv)
  moreover have "filter (\<lambda>k. own_prop h r k \<noteq> None) (filter (\<lambda>k. own_prop h r k = None) xs) = []"
    for xs by (induction xs) auto
  ultimately show ?thesis
    by (simp add: for_in_names.simps [of h r])
qed

text \<open>The loop of \<^verbatim>\<open>mixin\<close> when \<^verbatim>\<open>obj.hasOwnProperty\<close> is the builtin: \<open>h\<close> is the store
  at the call, \<open>hc\<close> the store reached.\<close>

lemma mixin_loop_run:
  fixes h :: heap and ob self :: ref
  defines "F \<equiv> (\<lambda>hc k. put hc self k (prop_value (own_prop h ob k)))"
    and "P \<equiv> (\<lambda>k. own_prop h ob k \<noteq> None)"
  assumes "code_of h hf = Some HasOwnPropertyCode"
    and "own_props hc ob = own_props h ob"
    and "get_prop hc ob ''hasOwnProperty'' = get_prop h ob ''hasOwnProperty''"
    and "prop_value (get_prop h ob ''hasOwnProperty'') = VRef hf"
    and "code_of hc hf = Some HasOwnPropertyCode"
  shows "mixin_loop (host_call (Suc n) U) self (VRef ob) ks hc =
     Inr (VRef self, foldl F hc (filter P ks))"
  using assms(4,5,7)
proof (induction ks arbitrary: hc)
  case Nil
  then show ?case by simp
next
  case (Cons i ks)
  have own_eq: "own_prop hc ob k = own_prop h ob k" for k
    using Cons.prems(1) by (simp add: own_prop_def)
  have hop: "js_get hc (VRef ob) ''hasOwnProperty'' = Inr (VRef hf)"
    using Cons.prems(2) assms(6) by simp
  have call: "call_val (host_call (Suc n) U) (VRef hf) (VRef ob) [VStr i] hc
      = Inr (VBool (own_prop h ob i \<noteq> None), hc)"
    using Cons.prems(3) own_eq by (simp add: arg_def)
  show ?case
  proof (cases "own_prop h ob i")
    case None
    have step: "mixin_loop (host_call (Suc n) U) self (VRef ob) (i # ks) hc
        = mixin_loop (host_call (Suc n) U) self (VRef ob) ks hc"
      using hop call None by simp
    have "filter P (i # ks) = filter P ks"
      using None by (simp add: P_def)
    then show ?thesis
      unfolding step using Cons.IH [OF Cons.prems] by (simp only:)
  next
    case (Some p)
    define hc' where "hc' = put hc self i (pvalue p)"
    have v: "js_get hc (VRef ob) i = Inr (pvalue p)"
      using Some own_eq [of i] by (simp add: get_prop.simps [of hc ob] prop_value_def)
    have step: "mixin_loop (host_call (Suc n) U) self (VRef ob) (i # ks) hc
        = mixin_loop (host_call (Suc n) U) self (VRef ob) ks hc'"
      using hop call v Some by (simp add: hc'_def)
    have same: "self = ob \<Longrightarrow> hc' = hc"
      using Some own_eq [of i] by (simp add: hc'_def put_same)
    have i1: "own_props hc' ob = own_props h ob"
    proof (cases "self = ob")
      case True
      then show ?thesis using same Cons.prems(1) by simp
    next
      case False
      then show ?thesis using Cons.prems(1) by (simp add: hc'_def own_props_put_other)
    qed
    have i2: "get_prop hc' ob ''hasOwnProperty'' = get_prop h ob ''hasOwnProperty''"
    proof (cases "self = ob \<or> i \<noteq> ''hasOwnProperty''")
      case True
      then show ?thesis
        using same Cons.prems(2) by (auto simp: hc'_def get_prop_put_other)
    next
      case False
      then have "own_prop h ob ''hasOwnProperty'' = Some p" using Some by simp
      moreover have "own_prop hc' ob ''hasOwnProperty'' = own_prop h ob ''hasOwnProperty''"
        using i1 by (simp add: own_prop_def)
      ultimately show ?thesis
        by (simp add: get_prop.simps [of _ ob])
    qed
    have i3: "code_of hc' hf = Some HasOwnPropertyCode"
      using Cons.prems(3) by (simp add: hc'_def)
    have "filter P (i # ks) = i # filter P ks"
      using Some by (simp add: P_def)
    moreover have "F hc i = hc'"
      using Some by (simp add: F_def hc'_def prop_value_def)
    ultimately have "foldl F hc (filter P (i # ks)) = foldl F hc' (filter P ks)"
      by simp
    then show ?thesis
      unfolding step using Cons.IH [OF i1 i2 i3] by (simp only:)
  qed
qed

text \<open>
  The run of \<^verbatim>\<open>r.mixin(obj)\<close> for a source object whose \<^verbatim>\<open>hasOwnProperty\<close> is the
  builtin: the result is \<open>r\<close>, and the store is the one after the assignments
  \<^verbatim>\<open>r[k] = obj[k]\<close> for the own enumerable names \<open>k\<close> of \<open>obj\<close>, in their order.
\<close>

lemma mixin_run:
  assumes "js_get h (VRef ob) ''hasOwnProperty'' = Inr (VRef hf)"
    and "code_of h hf = Some HasOwnPropertyCode"
  shows "mixin (host_call (Suc n) U) self [VRef ob] h =
     Inr (VRef self,
          foldl (\<lambda>hc k. put hc self k (prop_value (own_prop h ob k))) h (own_enumerable h ob))"
proof -
  have 4: "prop_value (get_prop h ob ''hasOwnProperty'') = VRef hf"
    using assms(1) by simp
  have a: "arg 0 [VRef ob] = VRef ob" by (simp add: arg_def)
  show ?thesis
    unfolding mixin_def a for_in_keys.simps
    using mixin_loop_run [OF assms(2) refl refl 4 assms(2), of n U self "for_in_names h ob"]
    unfolding for_in_names_own .
qed

text \<open>
  C7. \<^verbatim>\<open>r.mixin(obj)\<close> should copy onto \<open>r\<close> exactly the own enumerable members of \<open>obj\<close>
  and return \<open>r\<close>. For \<^verbatim>\<open>src = { swingSword : f, extend : g }\<close> and \<^verbatim>\<open>r = {}\<close> it
  returns \<open>r\<close> but copies \<^verbatim>\<open>swingSword\<close> alone: line 206 defined
  \<^verbatim>\<open>Object.prototype.extend\<close> with \<^verbatim>\<open>value\<close> only, so it is not writable, and the
  assignment \<^verbatim>\<open>self[i] = obj[i]\<close> of line 58 is rejected for the member \<^verbatim>\<open>extend\<close>.
\<close>

theorem mixin_skips_extend:
  "the_val (call_method demo_call (VRef 18) ''mixin'' [VRef 17] demo_mixin_before) = VRef 18
   \<and> own_enumerable demo_mixin_before 17 = [''swingSword'', ''extend'']
   \<and> map fst (own_props (the_heap (call_method demo_call (VRef 18) ''mixin'' [VRef 17]
                                      demo_mixin_before)) 18)
       = [''swingSword'']"
proof -
  have "let h = demo_mixin_before; r = call_method demo_call (VRef 18) ''mixin'' [VRef 17] h
        in the_val r = VRef 18
         \<and> own_enumerable h 17 = [''swingSword'', ''extend'']
         \<and> map fst (own_props (the_heap r) 18) = [''swingSword'']"
    by code_simp
  then show ?thesis
    unfolding Let_def .
qed

section \<open>A class used as a mixin\<close>

text \<open>
  C3. The class \<^verbatim>\<open>A = Object.extend({ dance : f, extend : g })\<close> has both methods on its
  prototype, but the record under \<^verbatim>\<open>A.__methods__\<close> holds \<^verbatim>\<open>dance\<close> alone: line 242
  fills the record by assignment, and the record inherits the \<^verbatim>\<open>extend\<close> of
  \<^verbatim>\<open>Object.prototype\<close>, which is not writable. So \<^verbatim>\<open>B = Object.extend(A)\<close> receives
  \<^verbatim>\<open>dance\<close> and not \<^verbatim>\<open>extend\<close>: the prototype of \<^verbatim>\<open>B\<close> owns no \<^verbatim>\<open>extend\<close>, and the
  lookup there finds \<^verbatim>\<open>Object.prototype.extend\<close> (object 11). The merged method set of
  \<^verbatim>\<open>A\<close> is not applied in full.
\<close>

theorem registry_drops_extend:
  "own_prop demo_registry_a 21 ''extend'' = Some (data_prop (VRef 15) False False True)
   \<and> js_get demo_registry_a (VRef 18) ''__methods__'' = Inr (VRef 20)
   \<and> map fst (own_props demo_registry_a 20) = [''dance'']
   \<and> js_get demo_registry_b (VRef 22) ''prototype'' = Inr (VRef 25)
   \<and> own_prop demo_registry_b 25 ''dance'' = Some (data_prop (VRef 13) False False True)
   \<and> own_prop demo_registry_b 25 ''extend'' = None
   \<and> js_get demo_registry_b (VRef 25) ''extend'' = Inr (VRef 11)"
proof -
  have a: "let h = demo_registry_a
        in own_prop h 21 ''extend'' = Some (data_prop (VRef 15) False False True)
         \<and> js_get h (VRef 18) ''__methods__'' = Inr (VRef 20)
         \<and> map fst (own_props h 20) = [''dance'']"
    by code_simp
  have b: "let h = demo_registry_b
        in js_get h (VRef 22) ''prototype'' = Inr (VRef 25)
         \<and> own_prop h 25 ''dance'' = Some (data_prop (VRef 13) False False True)
         \<and> own_prop h 25 ''extend'' = None
         \<and> js_get h (VRef 25) ''extend'' = Inr (VRef 11)"
    by code_simp
  show ?thesis
    using a b unfolding Let_def by blast
qed

end
